theory Spec2Isabelle
  imports Complex_Main "HOL-Library.AList" "HOL-Library.Multiset"
begin

section \<open>Data model of the quadrature transformer\<close>

text \<open>
  A code token is a string of emitted code; Python's \<open>None\<close> in a code map is the symbolic
  zero, so a map value is a \<open>string option\<close>. A component key is a tuple of indices.

  A Python dictionary is modelled by an association list: \<open>map_of\<close> looks a key up,
  \<open>AList.update\<close> assigns (in place for a key that is present, at the end for a new one),
  and the list keeps the order of insertion. A dictionary has each key once:
  \<open>distinct (map fst d)\<close>.

  The transformer is Python 2, where \<open>items()\<close> gives the entries of a dictionary in the
  order of the slots of its hash table, not in the order of insertion. The slot of a key
  depends on the key and on the dictionary (its size and its collisions), so it is a
  parameter \<open>slot d k\<close> of the model, and \<open>dict_items slot d\<close> are the entries of \<open>d\<close> in
  the order of their slots. Every function \<open>slot\<close> gives an order of the entries, and
  every order of the entries is given by some function \<open>slot\<close> (lemma
  \<open>dict_items_any_order\<close>). The order of iteration is written out where it reaches the
  emitted code: in the sum, over the dictionary \<open>duplications\<close>. In the product the
  permutations are a parameter, a list in the order of iteration. Every other loop over
  \<open>items()\<close> treats each entry on its own, and the model runs over the list.
\<close>

type_synonym token = string
type_synonym val = "token option"
type_synonym key = "nat list"
type_synonym code_map = "(key \<times> val) list"

datatype pynum = IntNum int | FloatNum real

definition dict_items :: "(('k \<times> 'v) list \<Rightarrow> 'k \<Rightarrow> nat) \<Rightarrow> ('k \<times> 'v) list \<Rightarrow> ('k \<times> 'v) list" where
  "dict_items slot d = sort_key (\<lambda>kv. slot d (fst kv)) d"

type_synonym slots = "(token \<times> nat) list \<Rightarrow> token \<Rightarrow> nat"

datatype restriction = NoRestriction | PlusSide | MinusSide

datatype error =
    ExpressionsGone
  | KeyInCode
  | ShouldNotHappen
  | ExpectedTwoOperands
  | TensorDenominator
  | DivisionByZero
  | TensorBase
  | UnsupportedExponent
  | AbsOperand
  | FacetNormalOperands
  | FacetNormalComponents
  | UnsupportedTransformation
  | KeyError
  | IndexError

text \<open>
  The format table \<open>self.format\<close> belongs to the code generation backend; the transformer
  only calls its entries. It is a record of functions, one field for each entry the
  transformer reads, named as the local variables of the source name them. The entries
  \<open>"power"\<close>, \<open>"std power"\<close> and \<open>"absolute value"\<close> receive map values that the source
  has not compared with \<open>None\<close>, so they take a \<open>val\<close>.
\<close>

record format =
  format_group :: "token \<Rightarrow> token"
  format_add :: "token list \<Rightarrow> token"
  format_mult :: "token list \<Rightarrow> token"
  format_float :: "pynum \<Rightarrow> token"
  format_div :: "token"
  format_power :: "val \<Rightarrow> int \<Rightarrow> token"
  format_std_power :: "val \<Rightarrow> val \<Rightarrow> token"
  format_abs :: "val \<Rightarrow> token"
  format_transform :: "string \<Rightarrow> nat \<Rightarrow> nat \<Rightarrow> restriction \<Rightarrow> token"
  format_detJ :: "restriction \<Rightarrow> token"
  format_inv :: "token \<Rightarrow> token"
  format_normal_component :: "restriction \<Rightarrow> nat \<Rightarrow> token"

section \<open>Sum\<close>

text \<open>
  First loop of \<open>sum\<close>: every value of every operand is appended to the list kept under
  its key.
\<close>

definition sum_append :: "(key \<times> val list) list \<Rightarrow> key \<times> val \<Rightarrow> (key \<times> val list) list" where
  "sum_append code kv =
     (case map_of code (fst kv) of
        Some vs \<Rightarrow> AList.update (fst kv) (vs @ [snd kv]) code
      | None \<Rightarrow> AList.update (fst kv) [snd kv] code)"

definition sum_collect :: "code_map list \<Rightarrow> (key \<times> val list) list" where
  "sum_collect operands = foldl (foldl sum_append) [] operands"

text \<open>
  The dictionary \<open>duplications\<close> as the loop over \<open>value\<close> builds it: each token with the
  number of its occurrences.
\<close>

definition count_dup :: "(token \<times> nat) list \<Rightarrow> token \<Rightarrow> (token \<times> nat) list" where
  "count_dup duplications v =
     (case map_of duplications v of
        Some n \<Rightarrow> AList.update v (n + 1) duplications
      | None \<Rightarrow> AList.update v 1 duplications)"

definition count_duplications :: "token list \<Rightarrow> (token \<times> nat) list" where
  "count_duplications value = foldl count_dup [] value"

definition non_zero :: "val list \<Rightarrow> token list" where
  "non_zero vs = map the (filter (\<lambda>v. v \<noteq> None) vs)"

definition sum_expression :: "format \<Rightarrow> token \<times> nat \<Rightarrow> token" where
  "sum_expression fmt en =
     (if snd en > 1 then format_mult fmt [format_float fmt (IntNum (int (snd en))), fst en]
      else fst en)"

text \<open>
  Body of the second loop of \<open>sum\<close>: the new value of one key. The list \<open>expressions\<close>
  is built in the order in which \<open>duplications.items()\<close> gives the entries.
\<close>

definition sum_entry :: "slots \<Rightarrow> format \<Rightarrow> val list \<Rightarrow> error + val" where
  "sum_entry slot fmt vs =
     (let value = non_zero vs in
      if length value > 1 then
        (let expressions =
               map (sum_expression fmt) (dict_items slot (count_duplications value)) in
         if expressions = [] then Inl ExpressionsGone
         else if length expressions > 1
           then Inr (Some (format_group fmt (format_add fmt expressions)))
           else Inr (Some (hd expressions)))
      else if value = [] then Inr None
      else Inr (Some (hd value)))"

fun sum_entries :: "slots \<Rightarrow> format \<Rightarrow> (key \<times> val list) list \<Rightarrow> error + code_map" where
  "sum_entries slot fmt [] = Inr []"
| "sum_entries slot fmt ((k, vs) # code) =
     (case sum_entry slot fmt vs of
        Inl e \<Rightarrow> Inl e
      | Inr v \<Rightarrow> (case sum_entries slot fmt code of
                   Inl e \<Rightarrow> Inl e
                 | Inr code' \<Rightarrow> Inr ((k, v) # code')))"

definition sum_node :: "slots \<Rightarrow> format \<Rightarrow> code_map list \<Rightarrow> error + code_map" where
  "sum_node slot fmt operands = sum_entries slot fmt (sum_collect operands)"

section \<open>Product\<close>

text \<open>
  An operand needs permutation when \<open>len(op) > 1 or (op and op.keys()[0] != ())\<close>; of the
  other operands the non-empty ones contribute their entry \<open>op[()]\<close>, which exists because
  such an operand has the empty tuple as its only key.
\<close>

definition needs_permutation :: "code_map \<Rightarrow> bool" where
  "needs_permutation op = (length op > 1 \<or> (op \<noteq> [] \<and> fst (hd op) \<noteq> []))"

definition permute_operands :: "code_map list \<Rightarrow> code_map list" where
  "permute_operands operands = filter needs_permutation operands"

definition not_permute_operands :: "code_map list \<Rightarrow> val list" where
  "not_permute_operands operands =
     map (\<lambda>op. the (map_of op []))
         (filter (\<lambda>op. \<not> needs_permutation op \<and> op \<noteq> []) operands)"

text \<open>
  The loop over the multiplicands of one entry, with the list \<open>value\<close> built so far. The
  result \<open>Inr None\<close> is the \<open>break\<close> at a \<open>None\<close> (zero product), \<open>Inr (Some value)\<close> is
  the end of the loop, and \<open>Inl ShouldNotHappen\<close> is the \<open>error("should not happen")\<close> at
  an empty token.
\<close>

fun product_loop :: "val list \<Rightarrow> token list \<Rightarrow> error + token list option" where
  "product_loop [] value = Inr (Some value)"
| "product_loop (None # vs) value = Inr None"
| "product_loop (Some v # vs) value =
     (if v = [] then Inl ShouldNotHappen
      else if v = ''1'' then product_loop vs value
      else product_loop vs (value @ [v]))"

definition product_value :: "format \<Rightarrow> token list \<Rightarrow> token" where
  "product_value fmt value = format_mult fmt (if value = [] then [''1''] else value)"

text \<open>
  Body of the loop over \<open>permutations.items()\<close>: the key is sorted, and the entry is written
  into \<open>code\<close>. At a \<open>None\<close> the source asserts that the sorted key is not yet in \<open>code\<close>.
\<close>

definition product_entry :: "format \<Rightarrow> val list \<Rightarrow> code_map \<Rightarrow> key \<times> val list \<Rightarrow> error + code_map" where
  "product_entry fmt not_permute code kv =
     (let l = sort (fst kv) in
      case product_loop (snd kv @ not_permute) [] of
        Inl e \<Rightarrow> Inl e
      | Inr None \<Rightarrow>
          if map_of code l \<noteq> None then Inl KeyInCode
          else Inr (AList.update l None code)
      | Inr (Some value) \<Rightarrow> Inr (AList.update l (Some (product_value fmt value)) code))"

fun product_entries :: "format \<Rightarrow> val list \<Rightarrow> code_map \<Rightarrow> (key \<times> val list) list \<Rightarrow> error + code_map" where
  "product_entries fmt not_permute code [] = Inr code"
| "product_entries fmt not_permute code (kv # permutations) =
     (case product_entry fmt not_permute code kv of
        Inl e \<Rightarrow> Inl e
      | Inr code' \<Rightarrow> product_entries fmt not_permute code' permutations)"

text \<open>
  \<open>create_permutations\<close> is defined in \<open>quadraturegenerator_utils\<close>; the product takes it
  as the parameter \<open>perms\<close>, which gives the permutations in the order in which
  \<open>permutations.items()\<close> gives them.
\<close>

definition product_node ::
  "format \<Rightarrow> (code_map list \<Rightarrow> (key \<times> val list) list) \<Rightarrow> code_map list \<Rightarrow> error + code_map" where
  "product_node fmt perms operands =
     (let permute = permute_operands operands;
          not_permute = not_permute_operands operands;
          permutations = perms permute
      in if permutations \<noteq> [] then product_entries fmt not_permute [] permutations
         else (case product_loop not_permute [] of
                 Inl e \<Rightarrow> Inl e
               | Inr None \<Rightarrow> Inr [([], None)]
               | Inr (Some value) \<Rightarrow> Inr [([], Some (product_value fmt value))]))"

text \<open>
  Modelled from the spec: \<open>create_permutations\<close> of \<open>quadraturegenerator_utils\<close>, which is
  not among the sources. The spec gives it as a mapping from concatenated keys to
  concatenated token lists, with one entry for each element of the Cartesian product of
  the key sets of the input maps, and empty for an empty input.
\<close>

fun create_permutations :: "code_map list \<Rightarrow> (key \<times> val list) list" where
  "create_permutations [] = []"
| "create_permutations [op] = map (\<lambda>kv. (fst kv, [snd kv])) op"
| "create_permutations (op # ops) =
     concat (map (\<lambda>kv. map (\<lambda>p. (fst kv @ fst p, snd kv # snd p)) (create_permutations ops)) op)"

section \<open>Division, power and absolute value\<close>

definition rank0 :: "code_map \<Rightarrow> bool" where
  "rank0 code = (map_of code [] \<noteq> None \<and> length code = 1)"

definition division_entry :: "format \<Rightarrow> token \<Rightarrow> val \<Rightarrow> val" where
  "division_entry fmt denominator v =
     (case v of
        None \<Rightarrow> None
      | Some t \<Rightarrow> if denominator = ''1'' then Some t
                  else Some (t @ format_div fmt @ format_group fmt denominator))"

definition division :: "format \<Rightarrow> code_map list \<Rightarrow> error + code_map" where
  "division fmt operands =
     (case operands of
        [numerator_code, denominator_code] \<Rightarrow>
          if \<not> rank0 denominator_code then Inl TensorDenominator
          else (case the (map_of denominator_code []) of
                  None \<Rightarrow> Inl DivisionByZero
                | Some denominator \<Rightarrow>
                    Inr (map (\<lambda>kv. (fst kv, division_entry fmt denominator (snd kv))) numerator_code))
      | _ \<Rightarrow> Inl ExpectedTwoOperands)"

text \<open>
  The transformer's state: the set of used transforms, and the ambient context that the
  base class keeps (the restriction, the geometric dimension and the current component,
  which \<open>self.component()\<close> returns).
\<close>

record transformer =
  trans_set :: "token set"
  restriction :: restriction
  geo_dim :: nat
  components :: "nat list"

text \<open>
  \<open>power\<close> receives the node and visits its operands itself. The exponent is inspected with
  \<open>isinstance\<close>; \<open>OtherExpr\<close> stands for an expression of any other class. The visitor
  \<open>self.visit\<close> of the base class is the parameter \<open>visit\<close>: it may fail, and it may
  change the state.
\<close>

datatype ufl_expr = IntValue int | FloatValue real | Coefficient nat | OtherExpr nat

type_synonym visitor = "ufl_expr \<Rightarrow> transformer \<Rightarrow> error + code_map \<times> transformer"

definition power_node ::
  "format \<Rightarrow> visitor \<Rightarrow> ufl_expr \<Rightarrow> ufl_expr \<Rightarrow> transformer \<Rightarrow> error + code_map \<times> transformer" where
  "power_node fmt visit base expo st =
     (case visit base st of
        Inl e \<Rightarrow> Inl e
      | Inr (base_code, st1) \<Rightarrow>
          if \<not> rank0 base_code then Inl TensorBase
          else
            (let v = the (map_of base_code []) in
             case expo of
               IntValue n \<Rightarrow> Inr ([([], Some (format_power fmt v n))], st1)
             | FloatValue x \<Rightarrow>
                 Inr ([([], Some (format_std_power fmt v (Some (format_float fmt (FloatNum x)))))], st1)
             | Coefficient c \<Rightarrow>
                 (case visit expo st1 of
                    Inl e \<Rightarrow> Inl e
                  | Inr (exp_code, st2) \<Rightarrow>
                      (case map_of exp_code [] of
                         None \<Rightarrow> Inl KeyError
                       | Some ev \<Rightarrow> Inr ([([], Some (format_std_power fmt v ev))], st2)))
             | OtherExpr c \<Rightarrow> Inl UnsupportedExponent))"

definition abs_node :: "format \<Rightarrow> code_map list \<Rightarrow> error + code_map" where
  "abs_node fmt operands =
     (case operands of
        [op] \<Rightarrow> if rank0 op then Inr [([], Some (format_abs fmt (the (map_of op []))))]
                else Inl AbsOperand
      | _ \<Rightarrow> Inl AbsOperand)"

section \<open>Facet normal and geometric transforms\<close>

definition facet_normal :: "format \<Rightarrow> code_map list \<Rightarrow> transformer \<Rightarrow> error + code_map \<times> transformer" where
  "facet_normal fmt operands st =
     (if operands \<noteq> [] then Inl FacetNormalOperands
      else if length (components st) \<noteq> 1 then Inl FacetNormalComponents
      else
        (let normal_component = format_normal_component fmt (restriction st) (hd (components st))
         in Inr ([([], Some normal_component)],
                 st\<lparr>trans_set := insert normal_component (trans_set st)\<rparr>)))"

text \<open>
  The loop of \<open>__apply_transform\<close> over \<open>enumerate(derivatives)\<close>, from position \<open>i\<close> on:
  \<open>multi[i]\<close> raises \<open>IndexError\<close> when the multi-index is shorter than the list of
  derivatives.
\<close>

fun apply_transform_loop ::
  "format \<Rightarrow> nat list \<Rightarrow> nat \<Rightarrow> nat list \<Rightarrow> token list \<Rightarrow> transformer \<Rightarrow> error + token list \<times> transformer" where
  "apply_transform_loop fmt multi i [] transforms st = Inr (transforms, st)"
| "apply_transform_loop fmt multi i (direction # derivatives) transforms st =
     (if i < length multi then
        (let ref = multi ! i;
             t = format_transform fmt ''JINV'' ref direction (restriction st)
         in apply_transform_loop fmt multi (Suc i) derivatives (transforms @ [t])
              (st\<lparr>trans_set := insert t (trans_set st)\<rparr>))
      else Inl IndexError)"

text \<open>The test \<open>if function:\<close> holds for a token that is neither \<open>None\<close> nor empty.\<close>

definition apply_transform ::
  "format \<Rightarrow> val \<Rightarrow> nat list \<Rightarrow> nat list \<Rightarrow> transformer \<Rightarrow> error + token \<times> transformer" where
  "apply_transform fmt function derivatives multi st =
     (case apply_transform_loop fmt multi 0 derivatives [] st of
        Inl e \<Rightarrow> Inl e
      | Inr (transforms, st') \<Rightarrow>
          (let prods = (case function of
                          None \<Rightarrow> transforms
                        | Some f \<Rightarrow> if f \<noteq> [] then transforms @ [f] else transforms)
           in Inr (format_mult fmt prods, st')))"

section \<open>Basis functions and coefficient functions\<close>

text \<open>
  The mapping kinds \<open>AFFINE\<close>, \<open>CONTRAVARIANT_PIOLA\<close> and \<open>COVARIANT_PIOLA\<close> are
  constants of \<open>ffc.finiteelement\<close>, compared with \<open>==\<close>; \<open>OtherMapping\<close> stands for any
  other value of \<open>transformation\<close>.
\<close>

datatype mapping_kind = AFFINE | CONTRAVARIANT_PIOLA | COVARIANT_PIOLA | OtherMapping nat

text \<open>A loop whose body may raise: the first error ends it.\<close>

fun for_each :: "('s \<Rightarrow> 'a \<Rightarrow> error + 's) \<Rightarrow> 's \<Rightarrow> 'a list \<Rightarrow> error + 's" where
  "for_each body s [] = Inr s"
| "for_each body s (x # xs) =
     (case body s x of Inl e \<Rightarrow> Inl e | Inr s' \<Rightarrow> for_each body s' xs)"

text \<open>
  \<open>deriv = [multi.count(i) for i in range(self.geo_dim)]\<close>, replaced by the empty list
  when \<open>not any(deriv)\<close>.
\<close>

definition derivative_counts :: "nat \<Rightarrow> nat list \<Rightarrow> nat list" where
  "derivative_counts gdim multi =
     (let deriv = map (count_list multi) [0..<gdim]
      in if filter (\<lambda>d. d \<noteq> 0) deriv = [] then [] else deriv)"

text \<open>
  The factor of a Piola mapping, multiplied to a basis or function name: the code is the
  same in \<open>create_argument\<close> and in \<open>create_function\<close>.
\<close>

definition piola_transform ::
  "format \<Rightarrow> mapping_kind \<Rightarrow> nat \<Rightarrow> nat \<Rightarrow> token \<Rightarrow> transformer \<Rightarrow> error + token \<times> transformer" where
  "piola_transform fmt transformation c local_comp basis st =
     (if transformation = COVARIANT_PIOLA then
        (let dxdX = format_transform fmt ''JINV'' c local_comp (restriction st);
             st1 = st\<lparr>trans_set := insert dxdX (trans_set st)\<rparr>
         in Inr (format_mult fmt [dxdX, basis], st1))
      else if transformation = CONTRAVARIANT_PIOLA then
        (let st1 = st\<lparr>trans_set := insert (format_detJ fmt (restriction st)) (trans_set st)\<rparr>;
             detJ = format_inv fmt (format_detJ fmt (restriction st1));
             dXdx = format_transform fmt ''J'' c local_comp (restriction st1);
             st2 = st1\<lparr>trans_set := insert dXdx (trans_set st1)\<rparr>
         in Inr (format_mult fmt [detJ, dXdx, basis], st2))
      else Inl UnsupportedTransformation)"

text \<open>
  The dictionary \<open>code\<close> of \<open>create_argument\<close> maps a key to the list of its terms: a key
  whose basis is \<open>None\<close> is entered with an empty list unless it is present, a term is
  appended to the list of its key.
\<close>

definition code_touch :: "(key \<times> token list) list \<Rightarrow> key \<Rightarrow> (key \<times> token list) list" where
  "code_touch code mapping =
     (if map_of code mapping = None then AList.update mapping [] code else code)"

definition code_append :: "(key \<times> token list) list \<Rightarrow> key \<Rightarrow> token \<Rightarrow> (key \<times> token list) list" where
  "code_append code mapping t =
     (case map_of code mapping of
        Some ts \<Rightarrow> AList.update mapping (ts @ [t]) code
      | None \<Rightarrow> AList.update mapping [t] code)"

definition merge_terms :: "format \<Rightarrow> token list \<Rightarrow> val" where
  "merge_terms fmt ts =
     (if length ts > 1 then Some (format_group fmt (format_add fmt ts))
      else if ts \<noteq> [] then Some (hd ts)
      else None)"

text \<open>
  \<open>_create_mapping_basis\<close> and \<open>_create_function_name\<close> are methods of the base class,
  taken as parameters, already applied to the UFL argument or function and to the
  elements: the first gives the pair \<open>(mapping, basis)\<close>, the second the function name,
  where \<open>None\<close> is a basis or name that vanishes.
\<close>

type_synonym mapping_basis = "nat \<Rightarrow> nat list \<Rightarrow> key \<times> val"
type_synonym function_name = "nat \<Rightarrow> nat list \<Rightarrow> val"

definition argument_affine ::
  "format \<Rightarrow> mapping_basis \<Rightarrow> nat list \<Rightarrow> nat \<Rightarrow>
   (key \<times> token list) list \<times> transformer \<Rightarrow> nat list \<Rightarrow>
   error + (key \<times> token list) list \<times> transformer" where
  "argument_affine fmt create_mapping_basis derivatives component cs multi =
     (let code = fst cs; st = snd cs;
          deriv = derivative_counts (geo_dim st) multi;
          mapping = fst (create_mapping_basis component deriv);
          basis = snd (create_mapping_basis component deriv)
      in case basis of
           None \<Rightarrow> Inr (code_touch code mapping, st)
         | Some b \<Rightarrow>
             (case apply_transform fmt (Some b) derivatives multi st of
                Inl e \<Rightarrow> Inl e
              | Inr (t, st') \<Rightarrow> Inr (code_append code mapping t, st')))"

definition argument_piola ::
  "format \<Rightarrow> mapping_basis \<Rightarrow> nat list \<Rightarrow> nat \<Rightarrow> nat \<Rightarrow> mapping_kind \<Rightarrow> nat list \<Rightarrow>
   (key \<times> token list) list \<times> transformer \<Rightarrow> nat \<Rightarrow>
   error + (key \<times> token list) list \<times> transformer" where
  "argument_piola fmt create_mapping_basis derivatives local_comp local_offset transformation multi cs c =
     (let code = fst cs; st = snd cs;
          deriv = derivative_counts (geo_dim st) multi;
          mapping = fst (create_mapping_basis (c + local_offset) deriv);
          basis = snd (create_mapping_basis (c + local_offset) deriv)
      in case basis of
           None \<Rightarrow> Inr (code_touch code mapping, st)
         | Some b \<Rightarrow>
             (case piola_transform fmt transformation c local_comp b st of
                Inl e \<Rightarrow> Inl e
              | Inr (b', st1) \<Rightarrow>
                  (case apply_transform fmt (Some b') derivatives multi st1 of
                     Inl e \<Rightarrow> Inl e
                   | Inr (t, st2) \<Rightarrow> Inr (code_append code mapping t, st2))))"

definition create_argument ::
  "format \<Rightarrow> mapping_basis \<Rightarrow> nat list \<Rightarrow> nat \<Rightarrow> nat \<Rightarrow> nat \<Rightarrow> mapping_kind \<Rightarrow> nat list list \<Rightarrow>
   transformer \<Rightarrow> error + code_map \<times> transformer" where
  "create_argument fmt create_mapping_basis derivatives component local_comp local_offset
       transformation multiindices st =
     (case (if transformation = AFFINE
            then for_each (argument_affine fmt create_mapping_basis derivatives component)
                   ([], st) multiindices
            else for_each
                   (\<lambda>cs multi.
                      for_each (argument_piola fmt create_mapping_basis derivatives local_comp
                                  local_offset transformation multi)
                        cs [0..<geo_dim (snd cs)])
                   ([], st) multiindices) of
        Inl e \<Rightarrow> Inl e
      | Inr (code, st') \<Rightarrow> Inr (map (\<lambda>kv. (fst kv, merge_terms fmt (snd kv))) code, st'))"

definition function_affine ::
  "format \<Rightarrow> function_name \<Rightarrow> nat list \<Rightarrow> nat \<Rightarrow>
   token list \<times> transformer \<Rightarrow> nat list \<Rightarrow> error + token list \<times> transformer" where
  "function_affine fmt create_function_name derivatives component cs multi =
     (let code = fst cs; st = snd cs;
          deriv = derivative_counts (geo_dim st) multi
      in case create_function_name component deriv of
           None \<Rightarrow> Inr (code, st)
         | Some name \<Rightarrow>
             (case apply_transform fmt (Some name) derivatives multi st of
                Inl e \<Rightarrow> Inl e
              | Inr (t, st') \<Rightarrow> Inr (code @ [t], st')))"

definition function_piola ::
  "format \<Rightarrow> function_name \<Rightarrow> nat list \<Rightarrow> nat \<Rightarrow> nat \<Rightarrow> mapping_kind \<Rightarrow> nat list \<Rightarrow>
   token list \<times> transformer \<Rightarrow> nat \<Rightarrow> error + token list \<times> transformer" where
  "function_piola fmt create_function_name derivatives local_comp local_offset transformation multi cs c =
     (let code = fst cs; st = snd cs;
          deriv = derivative_counts (geo_dim st) multi
      in case create_function_name (c + local_offset) deriv of
           None \<Rightarrow> Inr (code, st)
         | Some name \<Rightarrow>
             (case piola_transform fmt transformation c local_comp name st of
                Inl e \<Rightarrow> Inl e
              | Inr (name', st1) \<Rightarrow>
                  (case apply_transform fmt (Some name') derivatives multi st1 of
                     Inl e \<Rightarrow> Inl e
                   | Inr (t, st2) \<Rightarrow> Inr (code @ [t], st2))))"

definition create_function ::
  "format \<Rightarrow> function_name \<Rightarrow> nat list \<Rightarrow> nat \<Rightarrow> nat \<Rightarrow> nat \<Rightarrow> mapping_kind \<Rightarrow> nat list list \<Rightarrow>
   transformer \<Rightarrow> error + val \<times> transformer" where
  "create_function fmt create_function_name derivatives component local_comp local_offset
       transformation multiindices st =
     (case (if transformation = AFFINE
            then for_each (function_affine fmt create_function_name derivatives component)
                   ([], st) multiindices
            else for_each
                   (\<lambda>cs multi.
                      for_each (function_piola fmt create_function_name derivatives local_comp
                                  local_offset transformation multi)
                        cs [0..<geo_dim (snd cs)])
                   ([], st) multiindices) of
        Inl e \<Rightarrow> Inl e
      | Inr (code, st') \<Rightarrow> Inr (merge_terms fmt code, st'))"

section \<open>Wrapper capsules\<close>

text \<open>
  Subscription of a list with a Python integer (a negative index counts from the end) and
  of a dictionary with a key: both raise when nothing is there.
\<close>

definition py_index :: "'a list \<Rightarrow> int \<Rightarrow> error + 'a" where
  "py_index xs i =
     (if 0 \<le> i \<and> i < int (length xs) then Inr (xs ! nat i)
      else if i < 0 \<and> - int (length xs) \<le> i then Inr (xs ! nat (int (length xs) + i))
      else Inl IndexError)"

definition py_lookup :: "('k \<times> 'v) list \<Rightarrow> 'k \<Rightarrow> error + 'v" where
  "py_lookup d k = (case map_of d k of None \<Rightarrow> Inl KeyError | Some v \<Rightarrow> Inr v)"

definition and_then :: "error + 'a \<Rightarrow> ('a \<Rightarrow> error + 'b) \<Rightarrow> error + 'b" where
  "and_then r f = (case r of Inl e \<Rightarrow> Inl e | Inr x \<Rightarrow> f x)"

text \<open>
  \<open>UFCElementNames\<close> and \<open>UFCFormNames\<close> of \<open>ffc.backends.dolfin.capsules\<close> are built
  from positional arguments: a name and the lists of class names of the elements, of the
  dofmaps and of the coordinate maps, and for a form also the names of its coefficients,
  its class name and the name of its superclass.
\<close>

record ufc_element_names =
  capsule_name :: string
  element_classnames :: "string list"
  dofmap_classnames :: "string list"
  coordinate_map_classnames :: "string list"

record ufc_form_names =
  form_name :: string
  coefficient_names :: "string list"
  form_classname :: string
  form_element_classnames :: "string list"
  form_dofmap_classnames :: "string list"
  form_coordinate_map_classnames :: "string list"
  superclassname :: string

datatype capsules = ElementCapsule ufc_element_names | FormCapsules "ufc_form_names list"

text \<open>
  \<open>_encapsule_element\<close>: the tuple \<open>args\<close> is evaluated from left to right, so the first
  subscription that fails gives the error. The parameter \<open>prefix\<close> is not used.
\<close>

definition encapsule_element :: "(string \<times> string list) list \<Rightarrow> 'e list \<Rightarrow> error + ufc_element_names" where
  "encapsule_element classnames elements =
     (let element_number = int (length elements) - 1 in
      and_then (py_lookup classnames ''elements'') (\<lambda>es.
      and_then (py_index es element_number) (\<lambda>element.
      and_then (py_lookup classnames ''dofmaps'') (\<lambda>ds.
      and_then (py_index ds element_number) (\<lambda>dofmap.
      and_then (py_lookup classnames ''coordinate_mapppings'') (\<lambda>cs.
      and_then (py_index cs element_number) (\<lambda>coordinate_map.
        Inr \<lparr>capsule_name = ''0'', element_classnames = [element],
             dofmap_classnames = [dofmap],
             coordinate_map_classnames = [coordinate_map]\<rparr>)))))))"

text \<open>
  The data of a form that \<open>_encapsule_form\<close> reads. The forms and coefficients are looked
  up in \<open>object_names\<close> by their \<open>id\<close>, a number. \<open>"%d" % i\<close> is the decimal numeral of \<open>i\<close>.
\<close>

record 'e form_data =
  argument_elements :: "'e list"
  coefficient_elements :: "'e list"
  original_form :: nat
  reduced_coefficients :: "nat list"

definition digit :: "nat \<Rightarrow> char" where
  "digit d = ''0123456789'' ! d"

fun decimal :: "nat \<Rightarrow> string" where
  "decimal n = (if n div 10 = 0 then [digit n] else decimal (n div 10) @ [digit (n mod 10)])"

definition dict_get :: "('k \<times> 'v) list \<Rightarrow> 'k \<Rightarrow> 'v \<Rightarrow> 'v" where
  "dict_get d k dflt = (case map_of d k of None \<Rightarrow> dflt | Some v \<Rightarrow> v)"

text \<open>
  The comprehension \<open>[classnames[k][j] for j in element_numbers]\<close>: the dictionary is
  subscripted for each number, so not at all for an empty list of numbers.
\<close>

fun subscript_all :: "(string \<times> string list) list \<Rightarrow> string \<Rightarrow> int list \<Rightarrow> error + string list" where
  "subscript_all classnames k [] = Inr []"
| "subscript_all classnames k (j # js) =
     and_then (py_lookup classnames k) (\<lambda>names.
     and_then (py_index names j) (\<lambda>n.
     and_then (subscript_all classnames k js) (\<lambda>ns. Inr (n # ns))))"

fun element_numbers :: "('e \<times> int) list \<Rightarrow> 'e list \<Rightarrow> error + int list" where
  "element_numbers element_map [] = Inr []"
| "element_numbers element_map (e # es) =
     and_then (py_lookup element_map e) (\<lambda>j.
     and_then (element_numbers element_map es) (\<lambda>js. Inr (j # js)))"

text \<open>
  \<open>_encapsule_form\<close>, called without \<open>superclassname\<close>, which is then \<open>"Form"\<close>. It reads
  the class names of the coordinate maps under the key \<open>"coordinate_maps"\<close>. The
  \<open>print(classnames)\<close> writes to the standard output only.
\<close>

definition encapsule_form ::
  "(nat \<times> string) list \<Rightarrow> (string \<times> string list) list \<Rightarrow> 'e form_data \<Rightarrow> nat \<Rightarrow>
   ('e \<times> int) list \<Rightarrow> error + ufc_form_names" where
  "encapsule_form object_names classnames form_data i element_map =
     and_then (element_numbers element_map
                 (argument_elements form_data @ coefficient_elements form_data)) (\<lambda>js.
     and_then (py_lookup classnames ''forms'') (\<lambda>fs.
     and_then (py_index fs (int i)) (\<lambda>classname.
     and_then (subscript_all classnames ''elements'' js) (\<lambda>element_names.
     and_then (subscript_all classnames ''dofmaps'' js) (\<lambda>dofmap_names.
     and_then (subscript_all classnames ''coordinate_maps'' js) (\<lambda>coordinate_map_names.
       Inr \<lparr>form_name = dict_get object_names (original_form form_data) (decimal i),
            coefficient_names =
              map (\<lambda>jo. dict_get object_names (snd jo) (''w'' @ decimal (fst jo)))
                (enumerate 0 (reduced_coefficients form_data)),
            form_classname = classname,
            form_element_classnames = element_names,
            form_dofmap_classnames = dofmap_names,
            form_coordinate_map_classnames = coordinate_map_names,
            superclassname = ''Form''\<rparr>))))))"

fun encapsule_forms ::
  "(nat \<times> string) list \<Rightarrow> (string \<times> string list) list \<Rightarrow> ('e \<times> int) list \<Rightarrow>
   (nat \<times> 'e form_data) list \<Rightarrow> error + ufc_form_names list" where
  "encapsule_forms object_names classnames element_map [] = Inr []"
| "encapsule_forms object_names classnames element_map (ifd # form_datas) =
     and_then (encapsule_form object_names classnames (snd ifd) (fst ifd) element_map) (\<lambda>c.
     and_then (encapsule_forms object_names classnames element_map form_datas) (\<lambda>cs.
       Inr (c # cs)))"

text \<open>
  \<open>_encapsulate\<close>, on the parts \<open>form_datas\<close>, \<open>elements\<close> and \<open>element_map\<close> of
  \<open>analysis\<close>. \<open>all_equal\<close> of \<open>ffc.utils\<close> is a parameter.
\<close>

definition encapsulate ::
  "('e list \<Rightarrow> bool) \<Rightarrow> (nat \<times> string) list \<Rightarrow> (string \<times> string list) list \<Rightarrow>
   'e form_data list \<Rightarrow> 'e list \<Rightarrow> ('e \<times> int) list \<Rightarrow> error + capsules \<times> bool" where
  "encapsulate all_equal object_names classnames form_datas elements element_map =
     (if length form_datas = 0 then
        and_then (encapsule_element classnames elements) (\<lambda>c. Inr (ElementCapsule c, False))
      else
        and_then (encapsule_forms object_names classnames element_map (enumerate 0 form_datas))
          (\<lambda>cs. Inr (FormCapsules cs,
                      all_equal (concat (map argument_elements form_datas)))))"

section \<open>A sample format table\<close>

text \<open>
  A format table in the style of the C++ backend: tokens are joined with the operator
  between them. It serves to run the definitions on concrete code maps.
\<close>

declare decimal.simps [simp del]

fun join :: "string \<Rightarrow> string list \<Rightarrow> string" where
  "join sep [] = []"
| "join sep [x] = x"
| "join sep (x # y # ys) = x @ sep @ join sep (y # ys)"

definition decimal_int :: "int \<Rightarrow> string" where
  "decimal_int i = (if 0 \<le> i then decimal (nat i) else CHR ''-'' # decimal (nat (- i)))"

definition str_val :: "val \<Rightarrow> string" where
  "str_val v = (case v of None \<Rightarrow> ''None'' | Some t \<Rightarrow> t)"

definition restriction_suffix :: "restriction \<Rightarrow> string" where
  "restriction_suffix r = (case r of NoRestriction \<Rightarrow> [] | PlusSide \<Rightarrow> ''0'' | MinusSide \<Rightarrow> ''1'')"

definition sample_float :: "pynum \<Rightarrow> token" where
  "sample_float n =
     (case n of
        IntNum i \<Rightarrow> decimal_int i @ ''.0''
      | FloatNum x \<Rightarrow> if of_int \<lfloor>x\<rfloor> = x then decimal_int \<lfloor>x\<rfloor> @ ''.0'' else ''<float>'')"

definition sample_format :: format where
  "sample_format =
     \<lparr>format_group = (\<lambda>v. ''('' @ v @ '')''),
      format_add = join '' + '',
      format_mult = join ''*'',
      format_float = sample_float,
      format_div = ''/'',
      format_power = (\<lambda>b e. ''pow('' @ str_val b @ '', '' @ decimal_int e @ '')''),
      format_std_power = (\<lambda>b e. ''std::pow('' @ str_val b @ '', '' @ str_val e @ '')''),
      format_abs = (\<lambda>v. ''std::abs('' @ str_val v @ '')''),
      format_transform = (\<lambda>t j k r. t @ restriction_suffix r @ ''_'' @ decimal j @ decimal k),
      format_detJ = (\<lambda>r. ''detJ'' @ restriction_suffix r),
      format_inv = (\<lambda>v. ''1.0/'' @ v),
      format_normal_component = (\<lambda>r c. ''n'' @ restriction_suffix r @ decimal c)\<rparr>"

text \<open>
  A sample of the slots of a hash table with eight slots: the order of the slots is
  not the order of insertion (\<open>A\<close> comes before \<open>B\<close>, and \<open>c\<close> before \<open>a\<close> before \<open>b\<close>).
\<close>

definition sample_slot :: slots where
  "sample_slot d k = (3 * sum_list (map of_char k)) mod 8"

section \<open>The rules of the specification\<close>

text \<open>
  The contributions of the operands of a sum to a key, in the order of the operands; a
  dictionary contributes at most one value.
\<close>

definition contributions :: "code_map list \<Rightarrow> key \<Rightarrow> val list" where
  "contributions operands k =
     concat (map (\<lambda>op. map snd (filter (\<lambda>kv. fst kv = k) op)) operands)"

text \<open>The distinct elements of a list, in the order of their first occurrence.\<close>

definition first_occurrences :: "'a list \<Rightarrow> 'a list" where
  "first_occurrences xs = rev (remdups (rev xs))"

text \<open>
  Duplicate reduction as the specification words it: identical tokens are counted, a token
  that occurs \<open>n > 1\<close> times in \<open>value\<close> becomes \<open>multiply(float(n), token)\<close>, a token
  that occurs once stays.
\<close>

definition reduce_token :: "format \<Rightarrow> token list \<Rightarrow> token \<Rightarrow> token" where
  "reduce_token fmt value t =
     (if count_list value t > 1
      then format_mult fmt [format_float fmt (IntNum (int (count_list value t))), t]
      else t)"

text \<open>
  The tokens of \<open>value\<close> in the order in which the dictionary \<open>duplications\<close> is iterated:
  each token of \<open>value\<close> once.
\<close>

definition duplication_tokens :: "slots \<Rightarrow> token list \<Rightarrow> token list" where
  "duplication_tokens slot value = map fst (dict_items slot (count_duplications value))"

text \<open>
  The entry of a sum for a key with the contributions \<open>vs\<close>, as the specification words
  it: the duplicate reduction of two or more non-zero tokens, grouped when more than one
  expression remains; the only non-zero token; or the symbolic zero.
\<close>

definition sum_value :: "slots \<Rightarrow> format \<Rightarrow> val list \<Rightarrow> val" where
  "sum_value slot fmt vs =
     (let value = non_zero vs in
      if length value > 1 then
        (let expressions = map (reduce_token fmt value) (duplication_tokens slot value) in
         if length expressions > 1
           then Some (format_group fmt (format_add fmt expressions))
           else Some (hd expressions))
      else if value = [] then None
      else Some (hd value))"

text \<open>
  The folding rule of a product, on the list of the multiplicands of one entry in their
  order. The first multiplicand that is a symbolic zero or an empty token decides: a
  symbolic zero makes the entry the symbolic zero, an empty token is the malformed
  operand. Without either, the tokens equal to \<open>''1''\<close> are dropped and \<open>multiply\<close> is
  emitted over the rest, or over the literal \<open>''1''\<close> alone when nothing is left.
\<close>

definition fold_tokens :: "format \<Rightarrow> val list \<Rightarrow> error + val" where
  "fold_tokens fmt vs =
     (case find (\<lambda>v. v = None \<or> v = Some []) vs of
        Some None \<Rightarrow> Inr None
      | Some (Some t) \<Rightarrow> Inl ShouldNotHappen
      | None \<Rightarrow>
          (let value = filter (\<lambda>t. t \<noteq> ''1'') (map the vs)
           in Inr (Some (format_mult fmt (if value = [] then [''1''] else value)))))"

text \<open>
  The result of a product with tensor operands by this rule: one entry for each
  permutation, under the sorted key of the permutation, with the fold of the tokens of the
  permutation followed by the tokens of the scalar operands; the first fold that is the
  malformed operand is the result.
\<close>

fun fold_entries :: "format \<Rightarrow> val list \<Rightarrow> (key \<times> val list) list \<Rightarrow> error + code_map" where
  "fold_entries fmt np [] = Inr []"
| "fold_entries fmt np (kv # ps) =
     (case fold_tokens fmt (snd kv @ np) of
        Inl e \<Rightarrow> Inl e
      | Inr v \<Rightarrow> (case fold_entries fmt np ps of
                   Inl e \<Rightarrow> Inl e
                 | Inr code \<Rightarrow> Inr ((sort (fst kv), v) # code)))"

text \<open>
  The factors of \<open>__apply_transform\<close> as the specification words them: one inverse
  Jacobian factor for each position, made from the reference direction of the
  multi-index, the direction of the derivative and the restriction.
\<close>

definition jinv_factors :: "format \<Rightarrow> restriction \<Rightarrow> nat list \<Rightarrow> nat list \<Rightarrow> token list" where
  "jinv_factors fmt r multi derivatives =
     map (\<lambda>rd. format_transform fmt ''JINV'' (fst rd) (snd rd) r) (zip multi derivatives)"

text \<open>
  A sequence of visits that write the set of used transforms: each step is one of the
  operations of the transformer with its arguments, run on the state that the step before
  has left; the first error ends the traversal.
\<close>

datatype visit_step =
    VisitFacetNormal "code_map list"
  | VisitArgument mapping_basis "nat list" nat nat nat mapping_kind "nat list list"
  | VisitFunction function_name "nat list" nat nat nat mapping_kind "nat list list"
  | ApplyTransform val "nat list" "nat list"

definition run_visit :: "format \<Rightarrow> transformer \<Rightarrow> visit_step \<Rightarrow> error + transformer" where
  "run_visit fmt st step =
     (case step of
        VisitFacetNormal operands \<Rightarrow> map_sum id snd (facet_normal fmt operands st)
      | VisitArgument create_mapping_basis derivatives component local_comp local_offset
          transformation multiindices \<Rightarrow>
          map_sum id snd
            (create_argument fmt create_mapping_basis derivatives component local_comp
               local_offset transformation multiindices st)
      | VisitFunction create_function_name derivatives component local_comp local_offset
          transformation multiindices \<Rightarrow>
          map_sum id snd
            (create_function fmt create_function_name derivatives component local_comp
               local_offset transformation multiindices st)
      | ApplyTransform function derivatives multi \<Rightarrow>
          map_sum id snd (apply_transform fmt function derivatives multi st))"

section \<open>Sample visitor and state\<close>

text \<open>
  A visitor and a state to run the definitions on: the coefficient \<open>0\<close> is scalar, any
  other coefficient is a vector with two components.
\<close>

definition sample_visit :: visitor where
  "sample_visit e st =
     (case e of
        IntValue n \<Rightarrow> Inr ([([], Some (decimal_int n))], st)
      | FloatValue x \<Rightarrow> Inr ([([], Some (sample_float (FloatNum x)))], st)
      | Coefficient c \<Rightarrow>
          if c = 0 then Inr ([([], Some ''w0'')], st)
          else Inr ([([0], Some ''w[0]''), ([1], Some ''w[1]'')], st)
      | OtherExpr c \<Rightarrow> Inr ([([], Some ''x'')], st))"

definition sample_state :: transformer where
  "sample_state = \<lparr>trans_set = {}, restriction = NoRestriction, geo_dim = 2, components = [0]\<rparr>"

section \<open>Auxiliary notions of the proofs\<close>

text \<open>
  For the first loop of the sum: the list kept under a key, and the invariant that no
  key is kept with an empty list.
\<close>

definition entry_list :: "(key \<times> val list) list \<Rightarrow> key \<Rightarrow> val list" where
  "entry_list code k = (case map_of code k of None \<Rightarrow> [] | Some vs \<Rightarrow> vs)"

definition entries_nonempty :: "(key \<times> val list) list \<Rightarrow> bool" where
  "entries_nonempty code = (\<forall>k. map_of code k \<noteq> Some [])"

text \<open>
  For the product: the permutations whose key sorts to a given key, and the multisets of
  indices that arise by choosing one key from each operand.
\<close>

definition sorts_to :: "key \<Rightarrow> key \<times> val list \<Rightarrow> bool" where
  "sorts_to k kv = (sort (fst kv) = k)"

definition position :: "'a list \<Rightarrow> 'a \<Rightarrow> nat" where
  "position xs x = length (takeWhile (\<lambda>y. y \<noteq> x) xs)"

definition key_choices :: "code_map \<Rightarrow> nat multiset set \<Rightarrow> nat multiset set" where
  "key_choices op S = (\<Union>kv\<in>set op. (+) (mset (fst kv)) ` S)"

section \<open>Properties of the sum\<close>

lemma sum_append_entry:
  "entry_list (sum_append code kv) k = entry_list code k @ (if fst kv = k then [snd kv] else [])"
  by (auto simp: entry_list_def sum_append_def update_conv' split: option.splits)

lemma sum_append_nonempty: "entries_nonempty code \<Longrightarrow> entries_nonempty (sum_append code kv)"
  by (auto simp: entries_nonempty_def sum_append_def update_conv' split: option.splits)

lemma foldl_sum_append_entry:
  "entry_list (foldl sum_append code op) k = entry_list code k @ map snd (filter (\<lambda>kv. fst kv = k) op)"
  by (induction op arbitrary: code) (auto simp: sum_append_entry)

lemma foldl_sum_append_nonempty:
  "entries_nonempty code \<Longrightarrow> entries_nonempty (foldl sum_append code op)"
  by (induction op arbitrary: code) (auto simp: sum_append_nonempty)

lemma sum_collect_entry_gen:
  "entry_list (foldl (foldl sum_append) code operands) k = entry_list code k @ contributions operands k"
  by (induction operands arbitrary: code) (auto simp: foldl_sum_append_entry contributions_def)

lemma sum_collect_nonempty_gen:
  "entries_nonempty code \<Longrightarrow> entries_nonempty (foldl (foldl sum_append) code operands)"
  by (induction operands arbitrary: code) (auto simp: foldl_sum_append_nonempty)

lemma sum_collect_lookup:
  "map_of (sum_collect operands) k =
     (if contributions operands k = [] then None else Some (contributions operands k))"
proof -
  have e: "entry_list (sum_collect operands) k = contributions operands k"
    using sum_collect_entry_gen [of "[]" operands k] by (simp add: sum_collect_def entry_list_def)
  have n: "entries_nonempty (sum_collect operands)"
    unfolding sum_collect_def by (rule sum_collect_nonempty_gen) (simp add: entries_nonempty_def)
  show ?thesis using e n
    by (auto simp: entry_list_def entries_nonempty_def split: option.splits)
qed

lemma update_map_pair:
  "distinct ts \<Longrightarrow> AList.update k v (map (\<lambda>t. (t, f t)) ts) =
     (if k \<in> set ts then map (\<lambda>t. (t, if t = k then v else f t)) ts
      else map (\<lambda>t. (t, f t)) ts @ [(k, v)])"
  by (induction ts) auto

lemma first_occurrences_snoc:
  "first_occurrences (xs @ [x]) = (if x \<in> set xs then first_occurrences xs else first_occurrences xs @ [x])"
  by (simp add: first_occurrences_def)

lemma distinct_first_occurrences: "distinct (first_occurrences xs)"
  by (simp add: first_occurrences_def)

lemma set_first_occurrences: "set (first_occurrences xs) = set xs"
  by (simp add: first_occurrences_def)

lemma count_duplications_eq:
  "count_duplications value = map (\<lambda>t. (t, count_list value t)) (first_occurrences value)"
proof (induction "value" rule: rev_induct)
  case Nil
  show ?case by (simp add: count_duplications_def first_occurrences_def)
next
  case (snoc x xs)
  have m: "map_of (map (\<lambda>t. (t, count_list xs t)) (first_occurrences xs)) x =
        (if x \<in> set xs then Some (count_list xs x) else None)"
    by (simp add: map_of_map_restrict set_first_occurrences restrict_map_def)
  have "count_duplications (xs @ [x]) = count_dup (count_duplications xs) x"
    by (simp add: count_duplications_def)
  also have "\<dots> = map (\<lambda>t. (t, count_list (xs @ [x]) t)) (first_occurrences (xs @ [x]))"
    unfolding snoc.IH count_dup_def m
    by (auto simp: update_map_pair distinct_first_occurrences set_first_occurrences first_occurrences_snoc)
  finally show ?case .
qed





lemma mset_dict_items: "mset (dict_items slot d) = mset d"
  by (simp add: dict_items_def)

lemma set_dict_items: "set (dict_items slot d) = set d"
  by (simp add: dict_items_def)

text \<open>
  Every order of the entries of a dictionary is the order of iteration for some slots:
  the parameter \<open>slot\<close> leaves no order out.
\<close>

lemma position_nth: "distinct xs \<Longrightarrow> i < length xs \<Longrightarrow> position xs (xs ! i) = i"
  unfolding position_def
  by (subst takeWhile_eq_take_P_nth [where n = i]) (auto simp: nth_eq_iff_index_eq)

lemma map_position: "distinct xs \<Longrightarrow> map (position xs) xs = [0..<length xs]"
  by (rule nth_equalityI) (auto simp: position_nth)

lemma filter_eq_single: "distinct xs \<Longrightarrow> k \<in> set xs \<Longrightarrow> filter (\<lambda>x. k = x) xs = [k]"
  by (induction xs) (auto simp: filter_empty_conv)

lemma dict_items_any_order:
  assumes "distinct (map fst d)" and "mset d' = mset d"
  shows "dict_items (\<lambda>_. position (map fst d')) d = d'"
proof -
  let ?f = "\<lambda>kv. position (map fst d') (fst kv)"
  from assms have "mset (map fst d') = mset (map fst d)" by (metis mset_map)
  with assms(1) have d': "distinct (map fst d')" by (metis mset_eq_imp_distinct_iff)
  have m: "map ?f d' = [0..<length d']"
    using map_position [OF d'] by (simp add: comp_def)
  have inj: "inj_on ?f (set d')"
  proof -
    have "distinct (map ?f d')" unfolding m by simp
    then show ?thesis by (simp add: distinct_map)
  qed
  have s: "sorted (map ?f d')" unfolding m by simp
  have "sort_key ?f d = d'"
  proof (rule properties_for_sort_key [OF assms(2) _ s])
    fix k assume k: "k \<in> set d'"
    from assms(2) have e: "set d = set d'" by (metis mset_eq_setD)
    from d' have dd': "distinct d'" by (simp add: distinct_map)
    from assms(1) have dd: "distinct d" by (simp add: distinct_map)
    have 1: "filter (\<lambda>x. ?f k = ?f x) d' = filter (\<lambda>x. k = x) d'"
      using inj k by (intro filter_cong) (auto dest: inj_onD)
    have 2: "filter (\<lambda>x. ?f k = ?f x) d = filter (\<lambda>x. k = x) d"
      using inj k e by (intro filter_cong) (auto dest: inj_onD)
    have 3: "filter (\<lambda>x. k = x) d' = [k]" using dd' k by (rule filter_eq_single)
    have 4: "filter (\<lambda>x. k = x) d = [k]" using dd k e by (simp add: filter_eq_single)
    from 1 2 3 4 show "filter (\<lambda>x. ?f k = ?f x) d' = filter (\<lambda>x. ?f k = ?f x) d" by simp
  qed
  then show ?thesis by (simp add: dict_items_def)
qed

lemma mset_duplication_tokens:
  "mset (duplication_tokens slot value) = mset (first_occurrences value)"
proof -
  have "mset (duplication_tokens slot value) = image_mset fst (mset (count_duplications value))"
    by (simp add: duplication_tokens_def mset_dict_items)
  also have "\<dots> = mset (map fst (count_duplications value))" by simp
  also have "map fst (count_duplications value) = first_occurrences value"
    by (simp add: count_duplications_eq comp_def)
  finally show ?thesis .
qed

lemma distinct_duplication_tokens: "distinct (duplication_tokens slot value)"
  using mset_eq_imp_distinct_iff [OF mset_duplication_tokens] distinct_first_occurrences
  by blast

lemma set_duplication_tokens: "set (duplication_tokens slot value) = set value"
  using mset_eq_setD [OF mset_duplication_tokens] by (simp add: set_first_occurrences)

lemma expressions_eq:
  "map (sum_expression fmt) (dict_items slot (count_duplications value)) =
     map (reduce_token fmt value) (duplication_tokens slot value)"
proof -
  have "sum_expression fmt en = reduce_token fmt value (fst en)"
    if "en \<in> set (dict_items slot (count_duplications value))" for en
  proof -
    from that have "en \<in> set (map (\<lambda>t. (t, count_list value t)) (first_occurrences value))"
      by (simp add: set_dict_items count_duplications_eq)
    then have "snd en = count_list value (fst en)" by auto
    then show ?thesis by (simp add: sum_expression_def reduce_token_def)
  qed
  then show ?thesis by (simp add: duplication_tokens_def)
qed

lemma duplication_tokens_Nil: "duplication_tokens slot value = [] \<longleftrightarrow> value = []"
  using set_duplication_tokens [of slot "value"] by (metis set_empty)

lemma sum_entry_Inr: "sum_entry slot fmt vs = Inr (sum_value slot fmt vs)"
proof (cases "length (non_zero vs) > 1")
  case True
  then have "duplication_tokens slot (non_zero vs) \<noteq> []"
    by (auto simp: duplication_tokens_Nil)
  with True show ?thesis
    by (simp add: sum_entry_def sum_value_def expressions_eq Let_def)
next
  case False
  then show ?thesis by (simp add: sum_entry_def sum_value_def Let_def)
qed

lemma sum_entries_Inr:
  "sum_entries slot fmt code = Inr (map (\<lambda>kv. (fst kv, sum_value slot fmt (snd kv))) code)"
  by (induction code) (auto simp: sum_entry_Inr)

lemma sum_node_Inr:
  "sum_node slot fmt operands =
     Inr (map (\<lambda>kv. (fst kv, sum_value slot fmt (snd kv))) (sum_collect operands))"
  by (simp add: sum_node_def sum_entries_Inr)

lemma map_of_map_snd: "map_of (map (\<lambda>kv. (fst kv, f (snd kv))) xs) k = map_option f (map_of xs k)"
  by (induction xs) auto

lemma sum_node_lookup:
  "\<exists>code. sum_node slot fmt operands = Inr code \<and>
     map_of code k = (if contributions operands k = [] then None
                      else Some (sum_value slot fmt (contributions operands k)))"
  by (simp add: sum_node_Inr map_of_map_snd sum_collect_lookup)

text \<open>
  Claim C1. For every sum and every key with at least two non-zero contributing tokens
  over the operands, the entry of the result is obtained by counting identical tokens:
  there is one expression for each distinct token, in the order in which the dictionary
  of the counts is iterated; a token that occurs \<open>n > 1\<close> times is replaced by \<open>multiply
  [float n, token]\<close>, a token that occurs once is kept; more than one resulting expression
  is joined with \<open>add\<close> and wrapped with \<open>group\<close>, a single one is used as it is. This
  holds for every order of iteration, and the sum always returns.
\<close>

theorem sum_duplicate_reduction:
  assumes "value = non_zero (contributions operands k)" and "2 \<le> length value"
  shows "\<exists>code tokens expressions.
           sum_node slot fmt operands = Inr code \<and>
           tokens = map fst (dict_items slot (count_duplications value)) \<and>
           distinct tokens \<and> set tokens = set value \<and>
           expressions = map (reduce_token fmt value) tokens \<and> expressions \<noteq> [] \<and>
           map_of code k =
             Some (Some (if length expressions > 1
                         then format_group fmt (format_add fmt expressions)
                         else hd expressions))"
proof -
  let ?tokens = "duplication_tokens slot value"
  let ?expressions = "map (reduce_token fmt value) ?tokens"
  from assms have c: "contributions operands k \<noteq> []"
    by (auto simp: non_zero_def)
  from assms have r: "?expressions \<noteq> []"
    by (auto simp: duplication_tokens_Nil)
  obtain code where code: "sum_node slot fmt operands = Inr code"
     "map_of code k = (if contributions operands k = [] then None
                      else Some (sum_value slot fmt (contributions operands k)))"
    using sum_node_lookup by blast
  from code(2) assms c have m: "map_of code k =
      Some (Some (if length ?expressions > 1
                  then format_group fmt (format_add fmt ?expressions)
                  else hd ?expressions))"
    by (auto simp: sum_value_def Let_def)
  have t: "?tokens = map fst (dict_items slot (count_duplications value))"
    by (simp add: duplication_tokens_def)
  from code(1) t distinct_duplication_tokens [of slot "value"]
    set_duplication_tokens [of slot "value"] r m
  show ?thesis by blast
qed

text \<open>
  Claim C1 on a concrete sum: the token \<open>B\<close> comes first and once, the token \<open>A\<close> occurs
  twice, and a symbolic zero is left out; the dictionary is iterated with \<open>A\<close> before
  \<open>B\<close>.
\<close>

theorem sum_duplicate_reduction_witness:
  "[''B'', ''A'', ''A''] =
     non_zero (contributions
       [[([], Some ''B'')], [([], Some ''A'')], [([], None)], [([], Some ''A'')]] []) \<and>
   2 \<le> length [''B'', ''A'', ''A''] \<and>
   map fst (dict_items sample_slot (count_duplications [''B'', ''A'', ''A''])) = [''A'', ''B''] \<and>
   map (reduce_token sample_format [''B'', ''A'', ''A'']) [''A'', ''B''] = [''2.0*A'', ''B''] \<and>
   sum_node sample_slot sample_format
     [[([], Some ''B'')], [([], Some ''A'')], [([], None)], [([], Some ''A'')]]
     = Inr [([], Some ''(2.0*A + B)'')]"
proof -
  let ?ops = "[[([], Some ''B'')], [([], Some ''A'')], [([], None)], [([], Some ''A'')]] :: code_map list"
  have h1: "[''B'', ''A'', ''A''] = non_zero (contributions ?ops [])"
    by code_simp
  have h2: "2 \<le> length [''B'', ''A'', ''A'']" by simp
  have t: "map fst (dict_items sample_slot (count_duplications [''B'', ''A'', ''A''])) = [''A'', ''B'']"
    by code_simp
  have x: "map (reduce_token sample_format [''B'', ''A'', ''A'']) [''A'', ''B''] = [''2.0*A'', ''B'']"
    by code_simp
  from sum_duplicate_reduction [OF h1 h2, of sample_slot sample_format]
  obtain code where c: "sum_node sample_slot sample_format ?ops = Inr code"
    by blast
  have e: "sum_node sample_slot sample_format ?ops = Inr [([], Some ''(2.0*A + B)'')]"
    by code_simp
  from c e have "code = [([], Some ''(2.0*A + B)'')]" by simp
  with c h1 h2 t x show ?thesis by simp
qed

lemma sum_collect_single_gen:
  "distinct (map fst (code @ op)) \<Longrightarrow>
   foldl sum_append (map (\<lambda>kv. (fst kv, [snd kv])) code) op = map (\<lambda>kv. (fst kv, [snd kv])) (code @ op)"
proof (induction op arbitrary: code)
  case Nil
  then show ?case by simp
next
  case (Cons kv op)
  have n: "map_of (map (\<lambda>kv. (fst kv, [snd kv])) code) (fst kv) = None"
    using Cons.prems by (auto simp: map_of_eq_None_iff image_iff)
  have u: "AList.update (fst kv) [snd kv] (map (\<lambda>kv. (fst kv, [snd kv])) code)
            = map (\<lambda>kv. (fst kv, [snd kv])) (code @ [kv])"
    using n by (induction code) (auto split: if_splits)
  have "foldl sum_append (map (\<lambda>kv. (fst kv, [snd kv])) code) (kv # op) =
        foldl sum_append (map (\<lambda>kv. (fst kv, [snd kv])) (code @ [kv])) op"
    by (simp add: sum_append_def n u)
  also have "\<dots> = map (\<lambda>kv. (fst kv, [snd kv])) ((code @ [kv]) @ op)"
    using Cons.prems by (intro Cons.IH) simp
  finally show ?case by simp
qed

lemma sum_value_single: "sum_value slot fmt [v] = v"
  by (cases v) (auto simp: sum_value_def non_zero_def)

lemma sum_node_single:
  assumes "distinct (map fst op)"
  shows "sum_node slot fmt [op] = Inr op"
proof -
  have "sum_collect [op] = map (\<lambda>kv. (fst kv, [snd kv])) op"
    using sum_collect_single_gen [of "[]" op] assms by (simp add: sum_collect_def)
  then show ?thesis
    by (simp add: sum_node_Inr comp_def sum_value_single)
qed

text \<open>
  Claim C5. For every sum and every key: one non-zero contributing token is returned
  unchanged; when every contribution is the symbolic zero the entry is the symbolic zero
  \<open>None\<close>, not a token; and the sum of a single code map is that code map.
\<close>

theorem sum_single_and_zero:
  "\<exists>code. sum_node slot fmt operands = Inr code \<and>
     (\<forall>k t. non_zero (contributions operands k) = [t] \<longrightarrow> map_of code k = Some (Some t)) \<and>
     (\<forall>k. contributions operands k \<noteq> [] \<and> non_zero (contributions operands k) = []
          \<longrightarrow> map_of code k = Some None) \<and>
     (\<forall>op. operands = [op] \<and> distinct (map fst op) \<longrightarrow> code = op)"
proof -
  let ?code = "map (\<lambda>kv. (fst kv, sum_value slot fmt (snd kv))) (sum_collect operands)"
  have 1: "sum_node slot fmt operands = Inr ?code" by (rule sum_node_Inr)
  have l: "map_of ?code k = (if contributions operands k = [] then None
                      else Some (sum_value slot fmt (contributions operands k)))" for k
    by (simp add: map_of_map_snd sum_collect_lookup)
  have 2: "non_zero (contributions operands k) = [t] \<Longrightarrow> map_of ?code k = Some (Some t)" for k t
    unfolding l by (auto simp: sum_value_def non_zero_def)
  have 3: "contributions operands k \<noteq> [] \<and> non_zero (contributions operands k) = []
          \<Longrightarrow> map_of ?code k = Some None" for k
    unfolding l by (auto simp: sum_value_def)
  have 4: "operands = [op] \<and> distinct (map fst op) \<Longrightarrow> ?code = op" for op
    using sum_node_single [of op slot fmt] 1 by auto
  from 1 2 3 4 show ?thesis by blast
qed

text \<open>
  Claim C5 on concrete sums: a key with one non-zero token, a key with symbolic zeros
  only, and the sum of a single code map.
\<close>

theorem sum_single_and_zero_witness:
  "sum_node sample_slot sample_format
     [[([0], Some ''A''), ([1], None)], [([0], None), ([1], None)]]
     = Inr [([0], Some ''A''), ([1], None)] \<and>
   non_zero (contributions [[([0], Some ''A''), ([1], None)], [([0], None), ([1], None)]] [0]) = [''A''] \<and>
   contributions [[([0], Some ''A''), ([1], None)], [([0], None), ([1], None)]] [1] \<noteq> [] \<and>
   non_zero (contributions [[([0], Some ''A''), ([1], None)], [([0], None), ([1], None)]] [1]) = [] \<and>
   distinct (map fst [([0::nat], Some ''A''), ([1], None)]) \<and>
   sum_node sample_slot sample_format [[([0], Some ''A''), ([1], None)]]
     = Inr [([0], Some ''A''), ([1], None)]"
proof -
  let ?op = "[([0], Some ''A''), ([1], None)] :: code_map"
  let ?ops = "[?op, [([0], None), ([1], None)]] :: code_map list"
  have a: "non_zero (contributions ?ops [0]) = [''A'']" by code_simp
  have b: "contributions ?ops [1] \<noteq> []" by code_simp
  have c: "non_zero (contributions ?ops [1]) = []" by code_simp
  have d: "distinct (map fst ?op)" by simp
  obtain code where code: "sum_node sample_slot sample_format ?ops = Inr code"
      "map_of code [0] = Some (Some ''A'')" "map_of code [1] = Some None"
    using sum_single_and_zero [of sample_slot sample_format ?ops] a b c by blast
  have e: "sum_node sample_slot sample_format ?ops = Inr [([0], Some ''A''), ([1], None)]"
    by code_simp
  obtain code' where code': "sum_node sample_slot sample_format [?op] = Inr code'" "code' = ?op"
    using sum_single_and_zero [of sample_slot sample_format "[?op]"] d by blast
  from a b c d e code' show ?thesis by simp
qed

section \<open>Properties of the product\<close>

text \<open>
  An operand that needs no permutation and is not empty is a rank-0 code map, so its
  entry \<open>op[()]\<close> exists.
\<close>

lemma not_permute_entry:
  assumes "\<not> needs_permutation op" and "op \<noteq> []"
  shows "\<exists>v. op = [([], v)] \<and> map_of op [] = Some v"
proof (cases op)
  case Nil
  with assms show ?thesis by simp
next
  case (Cons kv rest)
  with assms show ?thesis
    by (cases kv) (auto simp: needs_permutation_def)
qed

lemma product_loop_find:
  "product_loop vs acc =
     (case find (\<lambda>v. v = None \<or> v = Some []) vs of
        Some None \<Rightarrow> Inr None
      | Some (Some t) \<Rightarrow> Inl ShouldNotHappen
      | None \<Rightarrow> Inr (Some (acc @ filter (\<lambda>t. t \<noteq> ''1'') (map the vs))))"
  by (induction vs acc rule: product_loop.induct) (auto split: option.splits)

lemma product_entry_fold:
  "product_entry fmt np code kv =
     (case fold_tokens fmt (snd kv @ np) of
        Inl e \<Rightarrow> Inl e
      | Inr None \<Rightarrow>
          if map_of code (sort (fst kv)) \<noteq> None then Inl KeyInCode
          else Inr (AList.update (sort (fst kv)) None code)
      | Inr (Some t) \<Rightarrow> Inr (AList.update (sort (fst kv)) (Some t) code))"
  by (simp add: product_entry_def fold_tokens_def product_loop_find product_value_def Let_def
           split: option.splits)

lemma product_entry_Inr:
  assumes "product_entry fmt np code kv = Inr code'"
  shows "\<exists>v. fold_tokens fmt (snd kv @ np) = Inr v \<and> code' = AList.update (sort (fst kv)) v code"
  using assms unfolding product_entry_fold
  by (auto split: sum.splits option.splits if_splits)

lemma product_entries_lookup:
  assumes "product_entries fmt np code0 ps = Inr code"
  shows "(filter (sorts_to k) ps = [] \<longrightarrow> map_of code k = map_of code0 k) \<and>
         (filter (sorts_to k) ps \<noteq> [] \<longrightarrow>
            (\<exists>v. map_of code k = Some v \<and>
                 fold_tokens fmt (snd (last (filter (sorts_to k) ps)) @ np) = Inr v))"
  using assms
proof (induction ps arbitrary: code0)
  case Nil
  then show ?case by simp
next
  case (Cons kv ps)
  from Cons.prems obtain code1 where
    1: "product_entry fmt np code0 kv = Inr code1" and
    2: "product_entries fmt np code1 ps = Inr code"
    by (auto split: sum.splits)
  from product_entry_Inr [OF 1] obtain v where
    v: "fold_tokens fmt (snd kv @ np) = Inr v" "code1 = AList.update (sort (fst kv)) v code0"
    by blast
  have m: "map_of code1 k = (if sort (fst kv) = k then Some v else map_of code0 k)"
    by (auto simp: v update_conv')
  from Cons.IH [OF 2] m v show ?case
    by (auto simp: sorts_to_def)
qed

lemma keys_update: "fst ` set (AList.update k v al) = insert k (fst ` set al)"
  by (induction al) auto

lemma product_entry_keys:
  assumes "product_entry fmt np code kv = Inr code'"
  shows "set (map fst code') = insert (sort (fst kv)) (set (map fst code))"
    and "distinct (map fst code) \<Longrightarrow> distinct (map fst code')"
proof -
  from product_entry_Inr [OF assms] obtain v where
    c: "code' = AList.update (sort (fst kv)) v code" by blast
  show "set (map fst code') = insert (sort (fst kv)) (set (map fst code))"
    unfolding c by (simp add: keys_update)
  show "distinct (map fst code) \<Longrightarrow> distinct (map fst code')"
    unfolding c by (simp add: distinct_update)
qed

lemma product_entries_keys:
  assumes "product_entries fmt np code0 ps = Inr code"
  shows "set (map fst code) = set (map fst code0) \<union> sort ` fst ` set ps \<and>
         (distinct (map fst code0) \<longrightarrow> distinct (map fst code))"
  using assms
proof (induction ps arbitrary: code0)
  case Nil
  then show ?case by simp
next
  case (Cons kv ps)
  from Cons.prems obtain code1 where
    1: "product_entry fmt np code0 kv = Inr code1" and
    2: "product_entries fmt np code1 ps = Inr code"
    by (auto split: sum.splits)
  from Cons.IH [OF 2] product_entry_keys [OF 1] show ?case by auto
qed

lemma product_entry_Inl:
  assumes "product_entry fmt np code kv = Inl e"
  shows "e = KeyInCode \<or> fold_tokens fmt (snd kv @ np) = Inl e"
  using assms unfolding product_entry_fold
  by (auto split: sum.splits option.splits if_splits)

lemma product_entries_Inl:
  assumes "product_entries fmt np code0 ps = Inl e"
  shows "e = KeyInCode \<or> (\<exists>kv\<in>set ps. fold_tokens fmt (snd kv @ np) = Inl e)"
  using assms
proof (induction ps arbitrary: code0)
  case Nil
  then show ?case by simp
next
  case (Cons kv ps)
  show ?case
  proof (cases "product_entry fmt np code0 kv")
    case (Inl e')
    with Cons.prems have "e' = e" by simp
    with Inl product_entry_Inl [of fmt np code0 kv e] show ?thesis by auto
  next
    case (Inr code1)
    with Cons.prems have "product_entries fmt np code1 ps = Inl e" by simp
    from Cons.IH [OF this] show ?thesis by auto
  qed
qed

lemma product_node_scalar:
  assumes "perms (permute_operands operands) = []"
  shows "product_node fmt perms operands =
           (case fold_tokens fmt (not_permute_operands operands) of
              Inl e \<Rightarrow> Inl e
            | Inr v \<Rightarrow> Inr [([], v)])"
  using assms
  by (simp add: product_node_def fold_tokens_def product_loop_find product_value_def Let_def
           split: option.splits)

lemma product_node_tensor:
  assumes "perms (permute_operands operands) \<noteq> []"
  shows "product_node fmt perms operands =
           product_entries fmt (not_permute_operands operands) [] (perms (permute_operands operands))"
  using assms by (simp add: product_node_def Let_def)

lemma last_filter_in:
  assumes "filter P xs \<noteq> []"
  shows "last (filter P xs) \<in> set xs \<and> P (last (filter P xs))"
proof -
  from assms have "last (filter P xs) \<in> set (filter P xs)" by (rule last_in_set)
  then show ?thesis by simp
qed

lemma update_fresh: "k \<notin> fst ` set al \<Longrightarrow> AList.update k v al = al @ [(k, v)]"
  by (induction al) auto

lemma map_of_fresh: "k \<notin> fst ` set al \<Longrightarrow> map_of al k = None"
  by (simp add: map_of_eq_None_iff)

lemma product_entries_fold_entries:
  assumes "distinct (map (\<lambda>kv. sort (fst kv)) ps)"
    and "(\<lambda>kv. sort (fst kv)) ` set ps \<inter> fst ` set code0 = {}"
  shows "product_entries fmt np code0 ps =
           (case fold_entries fmt np ps of Inl e \<Rightarrow> Inl e | Inr code \<Rightarrow> Inr (code0 @ code))"
  using assms
proof (induction ps arbitrary: code0)
  case Nil
  then show ?case by simp
next
  case (Cons kv ps)
  let ?l = "sort (fst kv)"
  from Cons.prems have fresh: "?l \<notin> fst ` set code0" by auto
  show ?case
  proof (cases "fold_tokens fmt (snd kv @ np)")
    case (Inl e)
    then show ?thesis by (simp add: product_entry_fold)
  next
    case (Inr v)
    have 1: "product_entry fmt np code0 kv = Inr (code0 @ [(?l, v)])"
      using Inr fresh by (cases v) (simp_all add: product_entry_fold update_fresh map_of_fresh)
    have d: "distinct (map (\<lambda>kv. sort (fst kv)) ps)" using Cons.prems by simp
    have i: "(\<lambda>kv. sort (fst kv)) ` set ps \<inter> fst ` set (code0 @ [(?l, v)]) = {}"
      using Cons.prems by auto
    have "product_entries fmt np (code0 @ [(?l, v)]) ps =
            (case fold_entries fmt np ps of
               Inl e \<Rightarrow> Inl e | Inr code \<Rightarrow> Inr ((code0 @ [(?l, v)]) @ code))"
      using d i by (rule Cons.IH)
    with 1 Inr show ?thesis by (simp split: sum.splits)
  qed
qed

lemma product_entries_all_fold:
  assumes "product_entries fmt np code0 ps = Inr code"
  shows "\<forall>kv\<in>set ps. \<exists>v. fold_tokens fmt (snd kv @ np) = Inr v"
  using assms
proof (induction ps arbitrary: code0)
  case Nil
  then show ?case by simp
next
  case (Cons kv ps)
  from Cons.prems obtain code1 where
    1: "product_entry fmt np code0 kv = Inr code1" and
    2: "product_entries fmt np code1 ps = Inr code"
    by (auto split: sum.splits)
  from product_entry_Inr [OF 1] Cons.IH [OF 2] show ?case by auto
qed

text \<open>
  Claim C6, as stated, fails where a symbolic zero and an empty token meet: the loop stops
  at the first of them. With the symbolic zero first the entry is the symbolic zero and
  the empty token raises nothing, without and with a tensor operand; with the empty token
  first the error is raised and the entry is not the symbolic zero.
\<close>

theorem product_fold_counterexample:
  "not_permute_operands [[([], None)], [([], Some [])]] = [None, Some []] \<and>
   product_node sample_format create_permutations [[([], None)], [([], Some [])]]
     = Inr [([], None)] \<and>
   product_node sample_format create_permutations
     [[([1, 0], Some ''a'')], [([], None)], [([], Some [])]]
     = Inr [([0, 1], None)] \<and>
   not_permute_operands [[([], Some [])], [([], None)]] = [Some [], None] \<and>
   product_node sample_format create_permutations [[([], Some [])], [([], None)]]
     = Inl ShouldNotHappen"
  by code_simp

text \<open>
  Claim C6, amended. For every product, the multiplicands of an entry are folded in their
  order, the tokens of the permutation and then the tokens of the scalar operands, by the
  rule \<open>fold_tokens\<close>: the first multiplicand that is the symbolic zero or an empty token
  decides, the symbolic zero makes the entry the symbolic zero, and an empty token raises
  \<open>ShouldNotHappen\<close>; without either, the tokens equal to \<open>''1''\<close> are dropped and
  \<open>multiply\<close> is emitted over the remaining tokens, and over the literal \<open>''1''\<close> alone
  when all were dropped. Without tensor operands the result is the single entry of this
  fold under the empty key, or its error. With tensor operands whose sorted permutation keys
  are distinct the result is \<open>fold_entries\<close>: one entry with its fold for each permutation,
  or the error of the first fold that raises. With any tensor operands, a result that is a
  code map has an entry for each permutation, every fold returned, and every entry is the
  fold of a permutation; and the error \<open>ShouldNotHappen\<close> comes from such a fold.
\<close>

theorem product_fold_rule:
  "(perms (permute_operands operands) = [] \<longrightarrow>
      product_node fmt perms operands =
        (case fold_tokens fmt (not_permute_operands operands) of
           Inl e \<Rightarrow> Inl e
         | Inr v \<Rightarrow> Inr [([], v)])) \<and>
   (perms (permute_operands operands) \<noteq> [] \<and>
    distinct (map (\<lambda>kv. sort (fst kv)) (perms (permute_operands operands))) \<longrightarrow>
      product_node fmt perms operands =
        fold_entries fmt (not_permute_operands operands) (perms (permute_operands operands))) \<and>
   (perms (permute_operands operands) \<noteq> [] \<longrightarrow>
      (\<forall>code. product_node fmt perms operands = Inr code \<longrightarrow>
         (\<forall>kv\<in>set (perms (permute_operands operands)).
            map_of code (sort (fst kv)) \<noteq> None \<and>
            (\<exists>v. fold_tokens fmt (snd kv @ not_permute_operands operands) = Inr v))) \<and>
      (\<forall>code k v. product_node fmt perms operands = Inr code \<and> map_of code k = Some v \<longrightarrow>
         (\<exists>kv\<in>set (perms (permute_operands operands)).
            sort (fst kv) = k \<and>
            fold_tokens fmt (snd kv @ not_permute_operands operands) = Inr v)) \<and>
      (product_node fmt perms operands = Inl ShouldNotHappen \<longrightarrow>
         (\<exists>kv\<in>set (perms (permute_operands operands)).
            fold_tokens fmt (snd kv @ not_permute_operands operands) = Inl ShouldNotHappen)))"
proof (intro conjI impI allI ballI)
  assume "perms (permute_operands operands) = []"
  then show "product_node fmt perms operands =
        (case fold_tokens fmt (not_permute_operands operands) of
           Inl e \<Rightarrow> Inl e
         | Inr v \<Rightarrow> Inr [([], v)])"
    by (rule product_node_scalar)
next
  let ?ps = "perms (permute_operands operands)"
  let ?np = "not_permute_operands operands"
  assume a: "?ps \<noteq> [] \<and> distinct (map (\<lambda>kv. sort (fst kv)) ?ps)"
  then have d: "distinct (map (\<lambda>kv. sort (fst kv)) ?ps)" by simp
  have i: "(\<lambda>kv. sort (fst kv)) ` set ?ps \<inter> fst ` set ([] :: code_map) = {}" by simp
  from a have "product_node fmt perms operands = product_entries fmt ?np [] ?ps"
    by (simp add: product_node_tensor)
  also have "\<dots> = (case fold_entries fmt ?np ?ps of
                     Inl e \<Rightarrow> Inl e | Inr code \<Rightarrow> Inr ([] @ code))"
    using d i by (rule product_entries_fold_entries)
  also have "\<dots> = fold_entries fmt ?np ?ps" by (simp split: sum.splits)
  finally show "product_node fmt perms operands = fold_entries fmt ?np ?ps" .
next
  fix code kv
  let ?ps = "perms (permute_operands operands)"
  let ?np = "not_permute_operands operands"
  assume ne: "?ps \<noteq> []" and r: "product_node fmt perms operands = Inr code"
    and kv: "kv \<in> set ?ps"
  from r ne have e: "product_entries fmt ?np [] ?ps = Inr code"
    by (simp add: product_node_tensor)
  from product_entries_keys [OF e] kv have "sort (fst kv) \<in> fst ` set code" by auto
  then show "map_of code (sort (fst kv)) \<noteq> None" by (simp add: map_of_eq_None_iff)
next
  fix code kv
  let ?ps = "perms (permute_operands operands)"
  let ?np = "not_permute_operands operands"
  assume ne: "?ps \<noteq> []" and r: "product_node fmt perms operands = Inr code"
    and kv: "kv \<in> set ?ps"
  from r ne have e: "product_entries fmt ?np [] ?ps = Inr code"
    by (simp add: product_node_tensor)
  from product_entries_all_fold [OF e] kv
  show "\<exists>v. fold_tokens fmt (snd kv @ ?np) = Inr v" by blast
next
  fix code k v
  let ?ps = "perms (permute_operands operands)"
  let ?np = "not_permute_operands operands"
  assume ne: "?ps \<noteq> []"
    and r: "product_node fmt perms operands = Inr code \<and> map_of code k = Some v"
  from r ne have e: "product_entries fmt ?np [] ?ps = Inr code"
    by (simp add: product_node_tensor)
  from product_entries_lookup [OF e, of k] r
  have f: "filter (sorts_to k) ?ps \<noteq> []"
    and l: "fold_tokens fmt (snd (last (filter (sorts_to k) ?ps)) @ ?np) = Inr v"
    by auto
  from last_filter_in [OF f] l
  show "\<exists>kv\<in>set ?ps. sort (fst kv) = k \<and> fold_tokens fmt (snd kv @ ?np) = Inr v"
    by (auto simp: sorts_to_def)
next
  let ?ps = "perms (permute_operands operands)"
  let ?np = "not_permute_operands operands"
  assume ne: "?ps \<noteq> []"
    and r: "product_node fmt perms operands = Inl ShouldNotHappen"
  from r ne have "product_entries fmt ?np [] ?ps = Inl ShouldNotHappen"
    by (simp add: product_node_tensor)
  from product_entries_Inl [OF this]
  show "\<exists>kv\<in>set ?ps. fold_tokens fmt (snd kv @ ?np) = Inl ShouldNotHappen"
    by simp
qed

lemma product_keys_and_values:
  assumes "product_node fmt perms operands = Inr code"
    and "perms (permute_operands operands) = ps" and "ps \<noteq> []"
  shows "set (map fst code) = sort ` fst ` set ps \<and> distinct (map fst code) \<and>
         (\<forall>k\<in>sort ` fst ` set ps.
            \<exists>v. map_of code k = Some v \<and>
                fold_tokens fmt
                  (snd (last (filter (\<lambda>kv. sort (fst kv) = k) ps)) @ not_permute_operands operands)
                  = Inr v)"
proof -
  let ?np = "not_permute_operands operands"
  from assms have e: "product_entries fmt ?np [] ps = Inr code"
    by (simp add: product_node_tensor)
  from product_entries_keys [OF e]
  have k: "set (map fst code) = sort ` fst ` set ps" and d: "distinct (map fst code)"
    by auto
  have "\<exists>v. map_of code k = Some v \<and>
          fold_tokens fmt (snd (last (filter (\<lambda>kv. sort (fst kv) = k) ps)) @ ?np) = Inr v"
    if "k \<in> sort ` fst ` set ps" for k
  proof -
    from that have "filter (sorts_to k) ps \<noteq> []"
      by (auto simp: filter_empty_conv sorts_to_def)
    with product_entries_lookup [OF e, of k] show ?thesis
      by (simp add: sorts_to_def [abs_def])
  qed
  with k d show ?thesis by blast
qed

lemma key_choices_commute: "key_choices a (key_choices b S) = key_choices b (key_choices a S)"
proof -
  have h: "(+) (mset ka) ` (+) (mset kb) ` S = (+) (mset kb) ` (+) (mset ka) ` S" for ka kb :: "nat list"
    by (simp add: image_image ac_simps)
  have "key_choices a (key_choices b S) =
          (\<Union>x\<in>set a. \<Union>y\<in>set b. (+) (mset (fst x)) ` (+) (mset (fst y)) ` S)"
    unfolding key_choices_def image_UN ..
  also have "\<dots> = (\<Union>x\<in>set a. \<Union>y\<in>set b. (+) (mset (fst y)) ` (+) (mset (fst x)) ` S)"
    by (simp only: h)
  also have "\<dots> = (\<Union>y\<in>set b. \<Union>x\<in>set a. (+) (mset (fst y)) ` (+) (mset (fst x)) ` S)"
    by (rule SUP_commute)
  also have "\<dots> = key_choices b (key_choices a S)"
    unfolding key_choices_def image_UN ..
  finally show ?thesis .
qed

lemma create_permutations_step:
  "mset ` fst ` set (concat (map (\<lambda>kv. map (\<lambda>p. (fst kv @ fst p, snd kv # snd p)) ps) op)) =
     key_choices op (mset ` fst ` set ps)"
  unfolding key_choices_def by (simp add: image_UN image_image)

lemma create_permutations_keys:
  "ops \<noteq> [] \<Longrightarrow> mset ` fst ` set (create_permutations ops) = fold key_choices (rev ops) {{#}}"
proof (induction ops)
  case Nil
  then show ?case by simp
next
  case (Cons op ops)
  show ?case
  proof (cases ops)
    case Nil
    then show ?thesis by (simp add: key_choices_def image_image UNION_singleton_eq_range)
  next
    case (Cons v va)
    with Cons.IH have IH: "mset ` fst ` set (create_permutations ops) = fold key_choices (rev ops) {{#}}"
      by simp
    have "mset ` fst ` set (create_permutations (op # ops)) =
          key_choices op (mset ` fst ` set (create_permutations ops))"
      unfolding Cons by (simp only: create_permutations.simps create_permutations_step)
    then show ?thesis unfolding IH by simp
  qed
qed

lemma create_permutations_keys_mset:
  assumes "mset ops = mset ops'"
  shows "sort ` fst ` set (create_permutations ops) = sort ` fst ` set (create_permutations ops')"
proof (cases "ops = []")
  case True
  with assms show ?thesis by simp
next
  case False
  with assms have ne: "ops' \<noteq> []" by auto
  have c: "key_choices x \<circ> key_choices y = key_choices y \<circ> key_choices x"
    for x y :: code_map
    by (rule ext, simp only: o_apply, rule key_choices_commute)
  have r: "mset (rev ops) = mset (rev ops')" using assms by simp
  have "fold key_choices (rev ops) = fold key_choices (rev ops')"
    by (rule fold_multiset_equiv [OF c r])
  then have m: "mset ` fst ` set (create_permutations ops) = mset ` fst ` set (create_permutations ops')"
    using create_permutations_keys [OF False] create_permutations_keys [OF ne] by simp
  have s: "sort ` A = sorted_list_of_multiset ` mset ` A" for A :: "nat list set"
    by (simp add: image_image sorted_list_of_multiset_mset)
  show ?thesis
    unfolding s [of "fst ` set (create_permutations ops)"] s [of "fst ` set (create_permutations ops')"] m ..
qed

lemma concat_map_Nil: "concat (map (\<lambda>kv. map (f kv) ps) op) = [] \<longleftrightarrow> op = [] \<or> ps = []"
  by (induction op) auto

lemma create_permutations_Nil: "create_permutations ops = [] \<longleftrightarrow> ops = [] \<or> [] \<in> set ops"
proof (induction ops)
  case Nil
  show ?case by simp
next
  case (Cons op ops)
  show ?case
  proof (cases ops)
    case Nil
    then show ?thesis by auto
  next
    case (Cons v va)
    have "create_permutations (op # ops) = [] \<longleftrightarrow> op = [] \<or> create_permutations ops = []"
      unfolding Cons create_permutations.simps by (rule concat_map_Nil)
    with Cons.IH show ?thesis by auto
  qed
qed

lemma permute_operands_mset:
  "mset ops' = mset ops \<Longrightarrow> mset (permute_operands ops') = mset (permute_operands ops)"
  by (simp only: permute_operands_def mset_filter)

lemma permute_operands_nonempty: "[] \<notin> set (permute_operands ops)"
  by (simp add: permute_operands_def needs_permutation_def)

lemma product_keys_operand_order:
  assumes "product_node fmt create_permutations operands = Inr code"
    and "product_node fmt create_permutations operands' = Inr code'"
    and "mset operands' = mset operands"
    and "create_permutations (permute_operands operands) \<noteq> []"
  shows "set (map fst code') = set (map fst code)"
proof -
  let ?np = "not_permute_operands operands" and ?np' = "not_permute_operands operands'"
  let ?ps = "create_permutations (permute_operands operands)"
  let ?ps' = "create_permutations (permute_operands operands')"
  have m: "mset (permute_operands operands') = mset (permute_operands operands)"
    by (rule permute_operands_mset [OF assms(3)])
  from assms(4) have "permute_operands operands \<noteq> []"
    by (auto simp: create_permutations_Nil)
  with m have "permute_operands operands' \<noteq> []" by auto
  then have ne: "?ps' \<noteq> []"
    by (simp add: create_permutations_Nil permute_operands_nonempty)
  from assms(1) assms(4) have e: "product_entries fmt ?np [] ?ps = Inr code"
    by (simp add: product_node_tensor)
  from assms(2) ne have e': "product_entries fmt ?np' [] ?ps' = Inr code'"
    by (simp add: product_node_tensor)
  have "sort ` fst ` set ?ps' = sort ` fst ` set ?ps"
    by (rule create_permutations_keys_mset [OF m])
  with product_entries_keys [OF e] product_entries_keys [OF e'] show ?thesis by simp
qed

text \<open>
  Claim C2, as stated, fails: the permutation keys \<open>(0, 1)\<close> and \<open>(1, 0)\<close> of two tensor
  operands both sort to \<open>(0, 1)\<close>; the result keeps the product of the later one, and the
  product \<open>a0*b1\<close> of the other is nowhere in the result.
\<close>

theorem product_collision_counterexample:
  "map_of (create_permutations
             [[([0], Some ''a0''), ([1], Some ''a1'')], [([0], Some ''b0''), ([1], Some ''b1'')]])
          [0, 1] = Some [Some ''a0'', Some ''b1''] \<and>
   map_of (create_permutations
             [[([0], Some ''a0''), ([1], Some ''a1'')], [([0], Some ''b0''), ([1], Some ''b1'')]])
          [1, 0] = Some [Some ''a1'', Some ''b0''] \<and>
   product_node sample_format create_permutations
     [[([0], Some ''a0''), ([1], Some ''a1'')], [([0], Some ''b0''), ([1], Some ''b1'')]]
     = Inr [([0, 0], Some ''a0*b0''), ([0, 1], Some ''a1*b0''), ([1, 1], Some ''a1*b1'')]"
  by code_simp

text \<open>
  Claim C2, amended. For a product with tensor operands that returns a code map, every
  key of a permutation is sorted: the keys of the result are exactly the sorted keys of the
  permutations, each once, and with the permutations of \<open>create_permutations\<close> this set of
  keys is the same for every order of the operands. When several permutation keys sort to
  the same key, their values are not merged: the entry is the fold of the multiplicands of
  a single one of these permutations.
\<close>

theorem product_sorted_keys_single:
  assumes "product_node fmt perms operands = Inr code"
    and "perms (permute_operands operands) = ps" and "ps \<noteq> []"
  shows "set (map fst code) = sort ` fst ` set ps \<and> distinct (map fst code) \<and>
         (\<forall>k\<in>sort ` fst ` set ps.
            \<exists>kv\<in>set ps. \<exists>v.
              sort (fst kv) = k \<and> map_of code k = Some v \<and>
              fold_tokens fmt (snd kv @ not_permute_operands operands) = Inr v) \<and>
         (\<forall>operands' code'.
            perms = create_permutations \<and> mset operands' = mset operands \<and>
            product_node fmt perms operands' = Inr code'
            \<longrightarrow> set (map fst code') = set (map fst code))"
proof -
  let ?np = "not_permute_operands operands"
  note kv = product_keys_and_values [OF assms]
  have single: "\<exists>kv\<in>set ps. \<exists>v.
      sort (fst kv) = k \<and> map_of code k = Some v \<and> fold_tokens fmt (snd kv @ ?np) = Inr v"
    if k: "k \<in> sort ` fst ` set ps" for k
  proof -
    let ?l = "last (filter (\<lambda>kv. sort (fst kv) = k) ps)"
    from k have "filter (\<lambda>kv. sort (fst kv) = k) ps \<noteq> []"
      by (auto simp: filter_empty_conv)
    from last_filter_in [OF this] have l: "?l \<in> set ps" "sort (fst ?l) = k"
      by simp_all
    from kv k obtain v where "map_of code k = Some v" "fold_tokens fmt (snd ?l @ ?np) = Inr v"
      by blast
    with l show ?thesis by blast
  qed
  have order: "set (map fst code') = set (map fst code)"
    if "perms = create_permutations \<and> mset operands' = mset operands \<and>
        product_node fmt perms operands' = Inr code'" for operands' code'
  proof -
    from that assms have
      "product_node fmt create_permutations operands = Inr code"
      "product_node fmt create_permutations operands' = Inr code'"
      "mset operands' = mset operands"
      "create_permutations (permute_operands operands) \<noteq> []"
      by auto
    then show ?thesis by (rule product_keys_operand_order)
  qed
  from kv have "set (map fst code) = sort ` fst ` set ps" "distinct (map fst code)"
    by simp_all
  with single order show ?thesis by blast
qed

text \<open>
  Claim C2, amended, on a concrete product of two tensor operands and a scalar operand.
\<close>

theorem product_sorted_keys_single_witness:
  "product_node sample_format create_permutations
     [[([1], Some ''a1''), ([0], Some ''a0'')], [([0], Some ''b0'')], [([], Some ''c'')]]
     = Inr [([0, 1], Some ''a1*b0*c''), ([0, 0], Some ''a0*b0*c'')] \<and>
   create_permutations (permute_operands
     [[([1], Some ''a1''), ([0], Some ''a0'')], [([0], Some ''b0'')], [([], Some ''c'')]])
     = [([1, 0], [Some ''a1'', Some ''b0'']), ([0, 0], [Some ''a0'', Some ''b0''])] \<and>
   [([1, 0], [Some ''a1'', Some ''b0'']), ([0::nat, 0::nat], [Some ''a0'', Some ''b0''])] \<noteq> [] \<and>
   set (map fst [([0, 1], Some ''a1*b0*c''), ([0::nat, 0::nat], Some ''a0*b0*c'')])
     = sort ` fst ` set [([1, 0], [Some ''a1'', Some ''b0'']), ([0, 0], [Some ''a0'', Some ''b0''])] \<and>
   distinct (map fst [([0, 1], Some ''a1*b0*c''), ([0::nat, 0::nat], Some ''a0*b0*c'')])"
proof -
  let ?ops = "[[([1], Some ''a1''), ([0], Some ''a0'')], [([0], Some ''b0'')], [([], Some ''c'')]] :: code_map list"
  let ?ps = "[([1, 0], [Some ''a1'', Some ''b0'']), ([0, 0], [Some ''a0'', Some ''b0''])] :: (key \<times> val list) list"
  let ?code = "[([0, 1], Some ''a1*b0*c''), ([0, 0], Some ''a0*b0*c'')] :: code_map"
  have h1: "product_node sample_format create_permutations ?ops = Inr ?code" by code_simp
  have h2: "create_permutations (permute_operands ?ops) = ?ps" by code_simp
  have h3: "?ps \<noteq> []" by simp
  note t = product_sorted_keys_single [OF h1 h2 h3]
  from t have k: "set (map fst ?code) = sort ` fst ` set ?ps" by (rule conjunct1)
  from t have d: "distinct (map fst ?code)" by (elim conjE)
  from h1 h2 h3 k d show ?thesis by (intro conjI)
qed

text \<open>
  Claim C6, amended, on concrete products: three scalar operands, one of them the
  identity; a tensor operand with a non-zero and a zero entry, multiplied by a token and
  by the identity; and a tensor operand multiplied by an empty token.
\<close>

theorem product_fold_rule_witness:
  "create_permutations (permute_operands
     [[([], Some ''A'')], [([], Some ''1'')], [([], Some ''B'')]]) = [] \<and>
   fold_tokens sample_format (not_permute_operands
     [[([], Some ''A'')], [([], Some ''1'')], [([], Some ''B'')]]) = Inr (Some ''A*B'') \<and>
   product_node sample_format create_permutations
     [[([], Some ''A'')], [([], Some ''1'')], [([], Some ''B'')]] = Inr [([], Some ''A*B'')] \<and>
   create_permutations (permute_operands
     [[([1, 0], Some ''a''), ([2, 0], None)], [([], Some ''c'')], [([], Some ''1'')]]) \<noteq> [] \<and>
   distinct (map (\<lambda>kv. sort (fst kv)) (create_permutations (permute_operands
     [[([1, 0], Some ''a''), ([2, 0], None)], [([], Some ''c'')], [([], Some ''1'')]]))) \<and>
   product_node sample_format create_permutations
     [[([1, 0], Some ''a''), ([2, 0], None)], [([], Some ''c'')], [([], Some ''1'')]]
     = Inr [([0, 1], Some ''a*c''), ([0, 2], None)] \<and>
   (\<exists>kv\<in>set (create_permutations (permute_operands
        [[([1, 0], Some ''a''), ([2, 0], None)], [([], Some ''c'')], [([], Some ''1'')]])).
      sort (fst kv) = [0, 1] \<and>
      fold_tokens sample_format (snd kv @ not_permute_operands
        [[([1, 0], Some ''a''), ([2, 0], None)], [([], Some ''c'')], [([], Some ''1'')]])
        = Inr (Some ''a*c'')) \<and>
   create_permutations (permute_operands [[([1, 0], Some ''a'')], [([], Some [])]]) \<noteq> [] \<and>
   distinct (map (\<lambda>kv. sort (fst kv))
     (create_permutations (permute_operands [[([1, 0], Some ''a'')], [([], Some [])]]))) \<and>
   product_node sample_format create_permutations [[([1, 0], Some ''a'')], [([], Some [])]]
     = Inl ShouldNotHappen \<and>
   (\<exists>kv\<in>set (create_permutations (permute_operands [[([1, 0], Some ''a'')], [([], Some [])]])).
      fold_tokens sample_format
        (snd kv @ not_permute_operands [[([1, 0], Some ''a'')], [([], Some [])]])
        = Inl ShouldNotHappen)"
proof -
  let ?ops1 = "[[([], Some ''A'')], [([], Some ''1'')], [([], Some ''B'')]] :: code_map list"
  let ?ops2 = "[[([1, 0], Some ''a''), ([2, 0], None)], [([], Some ''c'')], [([], Some ''1'')]]
                 :: code_map list"
  let ?ops3 = "[[([1, 0], Some ''a'')], [([], Some [])]] :: code_map list"
  have a: "create_permutations (permute_operands ?ops1) = []" by code_simp
  have f: "fold_tokens sample_format (not_permute_operands ?ops1) = Inr (Some ''A*B'')"
    by code_simp
  from product_fold_rule [of create_permutations ?ops1 sample_format] a f
  have p1: "product_node sample_format create_permutations ?ops1 = Inr [([], Some ''A*B'')]"
    by simp
  have b: "create_permutations (permute_operands ?ops2) \<noteq> []" by code_simp
  have d: "distinct (map (\<lambda>kv. sort (fst kv)) (create_permutations (permute_operands ?ops2)))"
    by code_simp
  have g: "fold_entries sample_format (not_permute_operands ?ops2)
             (create_permutations (permute_operands ?ops2))
           = Inr [([0, 1], Some ''a*c''), ([0, 2], None)]"
    by code_simp
  from product_fold_rule [of create_permutations ?ops2 sample_format] b d
  have "product_node sample_format create_permutations ?ops2 =
          fold_entries sample_format (not_permute_operands ?ops2)
            (create_permutations (permute_operands ?ops2))"
    by blast
  with g have p2: "product_node sample_format create_permutations ?ops2
                     = Inr [([0, 1], Some ''a*c''), ([0, 2], None)]"
    by simp
  have m: "map_of [([0::nat, 1::nat], Some ''a*c''), ([0, 2], None :: val)] [0, 1]
             = Some (Some ''a*c'')"
    by simp
  from product_fold_rule [of create_permutations ?ops2 sample_format] b p2 m
  have e2: "\<exists>kv\<in>set (create_permutations (permute_operands ?ops2)).
             sort (fst kv) = [0, 1] \<and>
             fold_tokens sample_format (snd kv @ not_permute_operands ?ops2) = Inr (Some ''a*c'')"
    by blast
  have c: "create_permutations (permute_operands ?ops3) \<noteq> []" by code_simp
  have d3: "distinct (map (\<lambda>kv. sort (fst kv)) (create_permutations (permute_operands ?ops3)))"
    by code_simp
  have g3: "fold_entries sample_format (not_permute_operands ?ops3)
             (create_permutations (permute_operands ?ops3)) = Inl ShouldNotHappen"
    by code_simp
  from product_fold_rule [of create_permutations ?ops3 sample_format] c d3
  have "product_node sample_format create_permutations ?ops3 =
          fold_entries sample_format (not_permute_operands ?ops3)
            (create_permutations (permute_operands ?ops3))"
    by blast
  with g3 have p3: "product_node sample_format create_permutations ?ops3 = Inl ShouldNotHappen"
    by simp
  from product_fold_rule [of create_permutations ?ops3 sample_format] c p3
  have e3: "\<exists>kv\<in>set (create_permutations (permute_operands ?ops3)).
             fold_tokens sample_format (snd kv @ not_permute_operands ?ops3) = Inl ShouldNotHappen"
    by blast
  from a f p1 b d p2 e2 c d3 p3 e3 show ?thesis by (intro conjI)
qed

section \<open>Properties of division, power, geometric transforms and capsules\<close>

lemma rank0_iff: "rank0 code \<longleftrightarrow> (\<exists>v. code = [([], v)])"
proof (cases code)
  case Nil
  then show ?thesis by (simp add: rank0_def)
next
  case (Cons kv rest)
  then show ?thesis
    by (cases kv) (auto simp: rank0_def split: if_splits)
qed

text \<open>
  Claim C3. Division fails unless it has exactly two operands; it fails unless the
  denominator is a rank-0 code map, that is the single entry of the empty key; it fails
  with \<open>DivisionByZero\<close> when that entry is the symbolic zero. Otherwise every entry of the
  numerator is mapped: a symbolic zero stays, with the denominator \<open>''1''\<close> the token is
  unchanged, and with any other denominator the result is the token followed by the
  division operator and the grouped denominator.
\<close>

theorem division_rule:
  "(length operands \<noteq> 2 \<longrightarrow> division fmt operands = Inl ExpectedTwoOperands) \<and>
   (\<forall>numerator_code denominator_code. operands = [numerator_code, denominator_code] \<longrightarrow>
      ((\<forall>v. denominator_code \<noteq> [([], v)]) \<longrightarrow> division fmt operands = Inl TensorDenominator) \<and>
      (denominator_code = [([], None)] \<longrightarrow> division fmt operands = Inl DivisionByZero) \<and>
      (\<forall>denominator. denominator_code = [([], Some denominator)] \<longrightarrow>
         division fmt operands =
           Inr (map (\<lambda>kv. (fst kv,
                            case snd kv of
                              None \<Rightarrow> None
                            | Some t \<Rightarrow>
                                if denominator = ''1'' then Some t
                                else Some (t @ format_div fmt @ format_group fmt denominator)))
                  numerator_code)))"
proof (intro conjI impI allI)
  assume "length operands \<noteq> 2"
  then show "division fmt operands = Inl ExpectedTwoOperands"
    by (auto simp: division_def split: list.splits)
next
  fix numerator_code denominator_code
  assume o: "operands = [numerator_code, denominator_code]"
  {
    assume "\<forall>v. denominator_code \<noteq> [([], v)]"
    then have "\<not> rank0 denominator_code" by (simp add: rank0_iff)
    with o show "division fmt operands = Inl TensorDenominator"
      by (simp add: division_def)
  next
    assume "denominator_code = [([], None)]"
    with o show "division fmt operands = Inl DivisionByZero"
      by (simp add: division_def rank0_def)
  next
    fix denominator
    assume "denominator_code = [([], Some denominator)]"
    with o show "division fmt operands =
           Inr (map (\<lambda>kv. (fst kv,
                            case snd kv of
                              None \<Rightarrow> None
                            | Some t \<Rightarrow>
                                if denominator = ''1'' then Some t
                                else Some (t @ format_div fmt @ format_group fmt denominator)))
                  numerator_code)"
      by (simp add: division_def rank0_def division_entry_def)
  }
qed

text \<open>
  Claim C3 on concrete divisions: each of the three failures and both kinds of
  denominator.
\<close>

theorem division_rule_witness:
  "division sample_format [[([0], Some ''a''), ([1], None)], [([], Some ''d'')]]
     = Inr [([0], Some ''a/(d)''), ([1], None)] \<and>
   division sample_format [[([0], Some ''a''), ([1], None)], [([], Some ''1'')]]
     = Inr [([0], Some ''a''), ([1], None)] \<and>
   division sample_format [[([0], Some ''a'')], [([], None)]] = Inl DivisionByZero \<and>
   (\<forall>v. [([0::nat], Some ''d'')] \<noteq> [([], v)]) \<and>
   division sample_format [[([0], Some ''a'')], [([0], Some ''d'')]] = Inl TensorDenominator \<and>
   length [[([0::nat], Some ''a'')]] \<noteq> 2 \<and>
   division sample_format [[([0], Some ''a'')]] = Inl ExpectedTwoOperands"
proof -
  let ?n = "[([0], Some ''a''), ([1], None)] :: code_map"
  have 1: "division sample_format [?n, [([], Some ''d'')]] = Inr [([0], Some ''a/(d)''), ([1], None)]"
    using division_rule [of "[?n, [([], Some ''d'')]]" sample_format]
    by (simp add: sample_format_def)
  have 2: "division sample_format [?n, [([], Some ''1'')]] = Inr [([0], Some ''a''), ([1], None)]"
    using division_rule [of "[?n, [([], Some ''1'')]]" sample_format]
    by simp
  have 3: "division sample_format [[([0], Some ''a'')], [([], None)]] = Inl DivisionByZero"
    using division_rule [of "[[([0], Some ''a'')], [([], None)]]" sample_format]
    by simp
  have 4: "\<forall>v. [([0::nat], Some ''d'')] \<noteq> [([], v)]" by simp
  have 5: "division sample_format [[([0], Some ''a'')], [([0], Some ''d'')]] = Inl TensorDenominator"
    using division_rule [of "[[([0], Some ''a'')], [([0], Some ''d'')]]" sample_format]
    by simp
  have 6: "length [[([0::nat], Some ''a'')]] \<noteq> 2" by simp
  have 7: "division sample_format [[([0], Some ''a'')]] = Inl ExpectedTwoOperands"
    using division_rule [of "[[([0], Some ''a'')]]" sample_format] by simp
  from 1 2 3 4 5 6 7 show ?thesis by (intro conjI)
qed

text \<open>
  Claim C4. When the visit of the base returns, the power fails with \<open>TensorBase\<close> unless
  the base code map is rank-0; for a rank-0 base with entry \<open>v\<close> the result is a rank-0 map
  chosen by the kind of the exponent: \<open>power v n\<close> for an integer literal, \<open>std_power v
  (float x)\<close> for a floating literal, \<open>std_power v ev\<close> for a coefficient whose visited
  code map has the entry \<open>ev\<close> at the empty key, and the error \<open>UnsupportedExponent\<close> for
  any other exponent.
\<close>

theorem power_dispatch:
  assumes "visit base st = Inr (base_code, st1)"
  shows "((\<forall>v. base_code \<noteq> [([], v)]) \<longrightarrow> power_node fmt visit base expo st = Inl TensorBase) \<and>
         (\<forall>v. base_code = [([], v)] \<longrightarrow>
            (\<forall>n. expo = IntValue n \<longrightarrow>
               power_node fmt visit base expo st = Inr ([([], Some (format_power fmt v n))], st1)) \<and>
            (\<forall>x. expo = FloatValue x \<longrightarrow>
               power_node fmt visit base expo st =
                 Inr ([([], Some (format_std_power fmt v (Some (format_float fmt (FloatNum x)))))], st1)) \<and>
            (\<forall>c exp_code st2 ev.
               expo = Coefficient c \<and> visit expo st1 = Inr (exp_code, st2) \<and>
               map_of exp_code [] = Some ev \<longrightarrow>
               power_node fmt visit base expo st =
                 Inr ([([], Some (format_std_power fmt v ev))], st2)) \<and>
            (\<forall>c. expo = OtherExpr c \<longrightarrow>
               power_node fmt visit base expo st = Inl UnsupportedExponent))"
proof (intro conjI impI allI)
  assume "\<forall>v. base_code \<noteq> [([], v)]"
  then have "\<not> rank0 base_code" by (simp add: rank0_iff)
  with assms show "power_node fmt visit base expo st = Inl TensorBase"
    by (simp add: power_node_def)
next
  fix v n
  assume "base_code = [([], v)]" "expo = IntValue n"
  with assms show "power_node fmt visit base expo st = Inr ([([], Some (format_power fmt v n))], st1)"
    by (simp add: power_node_def rank0_def)
next
  fix v x
  assume "base_code = [([], v)]" "expo = FloatValue x"
  with assms show "power_node fmt visit base expo st =
      Inr ([([], Some (format_std_power fmt v (Some (format_float fmt (FloatNum x)))))], st1)"
    by (simp add: power_node_def rank0_def)
next
  fix v c exp_code st2 ev
  assume "base_code = [([], v)]"
    "expo = Coefficient c \<and> visit expo st1 = Inr (exp_code, st2) \<and> map_of exp_code [] = Some ev"
  with assms show "power_node fmt visit base expo st =
      Inr ([([], Some (format_std_power fmt v ev))], st2)"
    by (auto simp: power_node_def rank0_def)
next
  fix v c
  assume "base_code = [([], v)]" "expo = OtherExpr c"
  with assms show "power_node fmt visit base expo st = Inl UnsupportedExponent"
    by (simp add: power_node_def rank0_def)
qed

text \<open>
  Claim C10. For a coefficient exponent the visited code map is subscripted with the empty
  key and nothing else about it is checked: when the key is missing the subscription
  fails with \<open>KeyError\<close>, and when it is present its entry is used whatever other keys the
  map has. The error \<open>UnsupportedExponent\<close> is raised by the power exactly for the
  exponents of another kind (the visit of the exponent itself not raising it).
\<close>

theorem power_exponent_unchecked:
  assumes "visit base st = Inr ([([], v)], st1)"
  shows "(\<forall>c exp_code st2.
            expo = Coefficient c \<and> visit expo st1 = Inr (exp_code, st2) \<and> map_of exp_code [] = None
            \<longrightarrow> power_node fmt visit base expo st = Inl KeyError) \<and>
         (\<forall>c exp_code st2 ev.
            expo = Coefficient c \<and> visit expo st1 = Inr (exp_code, st2) \<and>
            map_of exp_code [] = Some ev
            \<longrightarrow> power_node fmt visit base expo st =
                  Inr ([([], Some (format_std_power fmt v ev))], st2)) \<and>
         (visit expo st1 \<noteq> Inl UnsupportedExponent \<longrightarrow>
            (power_node fmt visit base expo st = Inl UnsupportedExponent
               \<longleftrightarrow> (\<exists>c. expo = OtherExpr c)))"
proof (intro conjI impI allI)
  fix c exp_code st2
  assume "expo = Coefficient c \<and> visit expo st1 = Inr (exp_code, st2) \<and> map_of exp_code [] = None"
  with assms show "power_node fmt visit base expo st = Inl KeyError"
    by (auto simp: power_node_def rank0_def)
next
  fix c exp_code st2 ev
  assume "expo = Coefficient c \<and> visit expo st1 = Inr (exp_code, st2) \<and>
            map_of exp_code [] = Some ev"
  with assms show "power_node fmt visit base expo st =
                  Inr ([([], Some (format_std_power fmt v ev))], st2)"
    by (auto simp: power_node_def rank0_def)
next
  assume "visit expo st1 \<noteq> Inl UnsupportedExponent"
  with assms show "power_node fmt visit base expo st = Inl UnsupportedExponent
               \<longleftrightarrow> (\<exists>c. expo = OtherExpr c)"
    by (cases expo) (auto simp: power_node_def rank0_def split: sum.splits option.splits)
qed

text \<open>
  Claim C4 on the sample visitor: each kind of exponent on a scalar base, and a base that
  is not rank-0.
\<close>

theorem power_dispatch_witness:
  "sample_visit (Coefficient 0) sample_state = Inr ([([], Some ''w0'')], sample_state) \<and>
   power_node sample_format sample_visit (Coefficient 0) (IntValue 2) sample_state
     = Inr ([([], Some ''pow(w0, 2)'')], sample_state) \<and>
   power_node sample_format sample_visit (Coefficient 0) (FloatValue 2) sample_state
     = Inr ([([], Some ''std::pow(w0, 2.0)'')], sample_state) \<and>
   power_node sample_format sample_visit (Coefficient 0) (Coefficient 0) sample_state
     = Inr ([([], Some ''std::pow(w0, w0)'')], sample_state) \<and>
   power_node sample_format sample_visit (Coefficient 0) (OtherExpr 7) sample_state
     = Inl UnsupportedExponent \<and>
   sample_visit (Coefficient 1) sample_state
     = Inr ([([0], Some ''w[0]''), ([1], Some ''w[1]'')], sample_state) \<and>
   power_node sample_format sample_visit (Coefficient 1) (IntValue 2) sample_state = Inl TensorBase"
proof -
  have b: "sample_visit (Coefficient 0) sample_state = Inr ([([], Some ''w0'')], sample_state)"
    by (simp add: sample_visit_def)
  note t = power_dispatch [where visit = sample_visit and base = "Coefficient 0"
      and st = sample_state and fmt = sample_format, OF b]
  have f2: "format_float sample_format (FloatNum 2) = ''2.0''"
    by (simp add: sample_format_def sample_float_def decimal_int_def decimal.simps digit_def)
  have p2: "format_power sample_format (Some ''w0'') 2 = ''pow(w0, 2)''"
    by (simp add: sample_format_def str_val_def decimal_int_def decimal.simps digit_def)
  have 1: "power_node sample_format sample_visit (Coefficient 0) (IntValue 2) sample_state
     = Inr ([([], Some ''pow(w0, 2)'')], sample_state)"
    using t [where expo = "IntValue 2"] p2 by simp
  have 2: "power_node sample_format sample_visit (Coefficient 0) (FloatValue 2) sample_state
     = Inr ([([], Some ''std::pow(w0, 2.0)'')], sample_state)"
    using t [where expo = "FloatValue 2"] f2 by (simp add: sample_format_def str_val_def)
  have 3: "power_node sample_format sample_visit (Coefficient 0) (Coefficient 0) sample_state
     = Inr ([([], Some ''std::pow(w0, w0)'')], sample_state)"
    using t [where expo = "Coefficient 0"] b by (simp add: sample_format_def str_val_def)
  have 4: "power_node sample_format sample_visit (Coefficient 0) (OtherExpr 7) sample_state
     = Inl UnsupportedExponent"
    using t [where expo = "OtherExpr 7"] by simp
  have c: "sample_visit (Coefficient 1) sample_state
     = Inr ([([0], Some ''w[0]''), ([1], Some ''w[1]'')], sample_state)"
    by (simp add: sample_visit_def)
  have 5: "power_node sample_format sample_visit (Coefficient 1) (IntValue 2) sample_state = Inl TensorBase"
    using power_dispatch [where visit = sample_visit and base = "Coefficient 1"
      and st = sample_state and fmt = sample_format and expo = "IntValue 2", OF c] by simp
  from b 1 2 3 4 c 5 show ?thesis by (intro conjI)
qed

text \<open>
  Claim C10 on the sample visitor: a vector-valued coefficient as the exponent has no
  entry at the empty key.
\<close>

theorem power_exponent_unchecked_witness:
  "sample_visit (Coefficient 0) sample_state = Inr ([([], Some ''w0'')], sample_state) \<and>
   sample_visit (Coefficient 1) sample_state
     = Inr ([([0], Some ''w[0]''), ([1], Some ''w[1]'')], sample_state) \<and>
   map_of [([0::nat], Some ''w[0]''), ([1], Some ''w[1]'')] [] = None \<and>
   power_node sample_format sample_visit (Coefficient 0) (Coefficient 1) sample_state = Inl KeyError \<and>
   sample_visit (OtherExpr 7) sample_state \<noteq> Inl UnsupportedExponent \<and>
   power_node sample_format sample_visit (Coefficient 0) (OtherExpr 7) sample_state
     = Inl UnsupportedExponent"
proof -
  have b: "sample_visit (Coefficient 0) sample_state = Inr ([([], Some ''w0'')], sample_state)"
    by (simp add: sample_visit_def)
  have c: "sample_visit (Coefficient 1) sample_state
     = Inr ([([0], Some ''w[0]''), ([1], Some ''w[1]'')], sample_state)"
    by (simp add: sample_visit_def)
  have m: "map_of [([0::nat], Some ''w[0]''), ([1], Some ''w[1]'')] [] = None" by simp
  have 1: "power_node sample_format sample_visit (Coefficient 0) (Coefficient 1) sample_state = Inl KeyError"
    using power_exponent_unchecked [where visit = sample_visit and base = "Coefficient 0"
      and st = sample_state and fmt = sample_format and expo = "Coefficient 1", OF b] c m by blast
  have o: "sample_visit (OtherExpr 7) sample_state \<noteq> Inl UnsupportedExponent"
    by (simp add: sample_visit_def)
  have 2: "power_node sample_format sample_visit (Coefficient 0) (OtherExpr 7) sample_state
     = Inl UnsupportedExponent"
    using power_exponent_unchecked [where visit = sample_visit and base = "Coefficient 0"
      and st = sample_state and fmt = sample_format and expo = "OtherExpr 7", OF b] o by blast
  from b c m 1 o 2 show ?thesis by (intro conjI)
qed

lemma apply_transform_loop_eq:
  "i + length derivatives \<le> length multi \<Longrightarrow>
   apply_transform_loop fmt multi i derivatives transforms st =
     Inr (transforms @ jinv_factors fmt (restriction st) (drop i multi) derivatives,
          st\<lparr>trans_set := trans_set st \<union>
                 set (jinv_factors fmt (restriction st) (drop i multi) derivatives)\<rparr>)"
proof (induction derivatives arbitrary: i transforms st)
  case Nil
  then show ?case by (simp add: jinv_factors_def)
next
  case (Cons direction derivatives)
  then have i: "i < length multi" and s: "Suc i + length derivatives \<le> length multi"
    by simp_all
  have d: "drop i multi = multi ! i # drop (Suc i) multi"
    using i by (simp add: Cons_nth_drop_Suc)
  show ?case
    using i by (simp add: Cons.IH [OF s] Let_def d jinv_factors_def)
qed

lemma apply_transform_loop_IndexError:
  "i \<le> length multi \<Longrightarrow> length multi < i + length derivatives \<Longrightarrow>
   apply_transform_loop fmt multi i derivatives transforms st = Inl IndexError"
  by (induction derivatives arbitrary: i transforms st) (auto simp: Let_def)

text \<open>
  Claim C7. For a list of derivative directions and a multi-index of the same length,
  \<open>__apply_transform\<close> makes one factor \<open>transform "JINV" multi[i] derivatives[i]
  restriction\<close> for each position \<open>i\<close>, adds every factor to the set of used transforms,
  and returns \<open>multiply\<close> over the factors followed by the base token; a base token that is
  absent (or empty) is left out.
\<close>

theorem apply_transform_factors:
  assumes "length derivatives = length multi"
  shows "apply_transform fmt function derivatives multi st =
           Inr (format_mult fmt
                  (jinv_factors fmt (restriction st) multi derivatives @
                   (case function of None \<Rightarrow> [] | Some f \<Rightarrow> if f = [] then [] else [f])),
                st\<lparr>trans_set := trans_set st \<union>
                       set (jinv_factors fmt (restriction st) multi derivatives)\<rparr>) \<and>
         length (jinv_factors fmt (restriction st) multi derivatives) = length derivatives \<and>
         (\<forall>i<length derivatives.
            jinv_factors fmt (restriction st) multi derivatives ! i =
              format_transform fmt ''JINV'' (multi ! i) (derivatives ! i) (restriction st))"
proof -
  from assms have "0 + length derivatives \<le> length multi" by simp
  from apply_transform_loop_eq [OF this, of fmt "[]" st]
  have "apply_transform fmt function derivatives multi st =
           Inr (format_mult fmt
                  (jinv_factors fmt (restriction st) multi derivatives @
                   (case function of None \<Rightarrow> [] | Some f \<Rightarrow> if f = [] then [] else [f])),
                st\<lparr>trans_set := trans_set st \<union>
                       set (jinv_factors fmt (restriction st) multi derivatives)\<rparr>)"
    by (simp add: apply_transform_def split: option.splits)
  moreover have "length (jinv_factors fmt (restriction st) multi derivatives) = length derivatives"
    using assms by (simp add: jinv_factors_def)
  moreover have "\<forall>i<length derivatives.
            jinv_factors fmt (restriction st) multi derivatives ! i =
              format_transform fmt ''JINV'' (multi ! i) (derivatives ! i) (restriction st)"
    using assms by (simp add: jinv_factors_def)
  ultimately show ?thesis by (intro conjI)
qed

text \<open>
  Claim C7 on two derivatives, with a base token and without one.
\<close>

theorem apply_transform_factors_witness:
  "length [0::nat, 1] = length [1::nat, 0] \<and>
   apply_transform sample_format (Some ''psi'') [0, 1] [1, 0] sample_state =
     Inr (''JINV_10*JINV_01*psi'', sample_state\<lparr>trans_set := {''JINV_10'', ''JINV_01''}\<rparr>) \<and>
   apply_transform sample_format None [0, 1] [1, 0] sample_state =
     Inr (''JINV_10*JINV_01'', sample_state\<lparr>trans_set := {''JINV_10'', ''JINV_01''}\<rparr>)"
proof -
  have l: "length [0::nat, 1] = length [1::nat, 0]" by simp
  have j: "jinv_factors sample_format (restriction sample_state) [1, 0] [0, 1]
             = [''JINV_10'', ''JINV_01'']"
    by (simp add: jinv_factors_def sample_format_def sample_state_def restriction_suffix_def
          decimal.simps digit_def)
  have 1: "apply_transform sample_format (Some ''psi'') [0, 1] [1, 0] sample_state =
     Inr (''JINV_10*JINV_01*psi'', sample_state\<lparr>trans_set := {''JINV_10'', ''JINV_01''}\<rparr>)"
    using apply_transform_factors [OF l, of sample_format "Some ''psi''" sample_state]
    unfolding j by (simp add: sample_format_def sample_state_def)
  have 2: "apply_transform sample_format None [0, 1] [1, 0] sample_state =
     Inr (''JINV_10*JINV_01'', sample_state\<lparr>trans_set := {''JINV_10'', ''JINV_01''}\<rparr>)"
    using apply_transform_factors [OF l, of sample_format None sample_state]
    unfolding j by (simp add: sample_format_def sample_state_def)
  from l 1 2 show ?thesis by (intro conjI)
qed

lemma for_each_invariant:
  assumes step: "\<And>s x s'. body s x = Inr s' \<Longrightarrow> R s s'"
    and refl: "\<And>s. R s s"
    and trans: "\<And>a b c. R a b \<Longrightarrow> R b c \<Longrightarrow> R a c"
    and run: "for_each body s xs = Inr s'"
  shows "R s s'"
  using run
proof (induction xs arbitrary: s)
  case Nil
  then show ?case by (simp add: refl)
next
  case (Cons x xs)
  then obtain s1 where 1: "body s x = Inr s1" and 2: "for_each body s1 xs = Inr s'"
    by (auto split: sum.splits)
  from step [OF 1] Cons.IH [OF 2] show ?case by (rule trans)
qed

lemma for_each_append:
  "for_each body s (xs @ ys) =
     (case for_each body s xs of Inl e \<Rightarrow> Inl e | Inr s1 \<Rightarrow> for_each body s1 ys)"
  by (induction xs arbitrary: s) (auto split: sum.splits)

lemma apply_transform_loop_grows:
  "apply_transform_loop fmt multi i derivatives transforms st = Inr (ts, st') \<Longrightarrow>
   trans_set st \<subseteq> trans_set st'"
proof (induction derivatives arbitrary: i transforms st)
  case Nil
  then show ?case by simp
next
  case (Cons direction derivatives)
  from Cons.prems have i: "i < length multi" by (simp split: if_splits)
  let ?t = "format_transform fmt ''JINV'' (multi ! i) direction (restriction st)"
  from Cons.prems i have
    "apply_transform_loop fmt multi (Suc i) derivatives (transforms @ [?t])
       (st\<lparr>trans_set := insert ?t (trans_set st)\<rparr>) = Inr (ts, st')"
    by (simp add: Let_def)
  from Cons.IH [OF this] show ?case by auto
qed

lemma apply_transform_grows:
  "apply_transform fmt function derivatives multi st = Inr (t, st') \<Longrightarrow>
   trans_set st \<subseteq> trans_set st'"
  by (auto simp: apply_transform_def Let_def split: sum.splits dest: apply_transform_loop_grows)

lemma piola_transform_grows:
  "piola_transform fmt transformation c local_comp basis st = Inr (b, st') \<Longrightarrow>
   trans_set st \<subseteq> trans_set st'"
  by (auto simp: piola_transform_def Let_def split: if_splits)

lemma facet_normal_grows:
  "facet_normal fmt operands st = Inr (code, st') \<Longrightarrow> trans_set st \<subseteq> trans_set st'"
  by (auto simp: facet_normal_def Let_def split: if_splits)

lemma argument_affine_grows:
  assumes "argument_affine fmt cmb derivatives component cs multi = Inr cs'"
  shows "trans_set (snd cs) \<subseteq> trans_set (snd cs')"
proof (cases "snd (cmb component (derivative_counts (geo_dim (snd cs)) multi))")
  case None
  with assms show ?thesis by (auto simp: argument_affine_def Let_def)
next
  case (Some b)
  with assms obtain t where
    "apply_transform fmt (Some b) derivatives multi (snd cs) = Inr (t, snd cs')"
    by (auto simp: argument_affine_def Let_def split: sum.splits)
  then show ?thesis by (rule apply_transform_grows)
qed

lemma argument_piola_grows:
  assumes "argument_piola fmt cmb derivatives local_comp local_offset transformation multi cs c
             = Inr cs'"
  shows "trans_set (snd cs) \<subseteq> trans_set (snd cs')"
proof (cases "snd (cmb (c + local_offset) (derivative_counts (geo_dim (snd cs)) multi))")
  case None
  with assms show ?thesis by (auto simp: argument_piola_def Let_def)
next
  case (Some b)
  with assms obtain b' st1 t where
    1: "piola_transform fmt transformation c local_comp b (snd cs) = Inr (b', st1)" and
    2: "apply_transform fmt (Some b') derivatives multi st1 = Inr (t, snd cs')"
    by (auto simp: argument_piola_def Let_def split: sum.splits)
  from piola_transform_grows [OF 1] apply_transform_grows [OF 2] show ?thesis
    by (rule subset_trans)
qed

lemma function_affine_grows:
  assumes "function_affine fmt cfn derivatives component cs multi = Inr cs'"
  shows "trans_set (snd cs) \<subseteq> trans_set (snd cs')"
proof (cases "cfn component (derivative_counts (geo_dim (snd cs)) multi)")
  case None
  with assms show ?thesis by (auto simp: function_affine_def Let_def)
next
  case (Some b)
  with assms obtain t where
    "apply_transform fmt (Some b) derivatives multi (snd cs) = Inr (t, snd cs')"
    by (auto simp: function_affine_def Let_def split: sum.splits)
  then show ?thesis by (rule apply_transform_grows)
qed

lemma function_piola_grows:
  assumes "function_piola fmt cfn derivatives local_comp local_offset transformation multi cs c
             = Inr cs'"
  shows "trans_set (snd cs) \<subseteq> trans_set (snd cs')"
proof (cases "cfn (c + local_offset) (derivative_counts (geo_dim (snd cs)) multi)")
  case None
  with assms show ?thesis by (auto simp: function_piola_def Let_def)
next
  case (Some b)
  with assms obtain b' st1 t where
    1: "piola_transform fmt transformation c local_comp b (snd cs) = Inr (b', st1)" and
    2: "apply_transform fmt (Some b') derivatives multi st1 = Inr (t, snd cs')"
    by (auto simp: function_piola_def Let_def split: sum.splits)
  from piola_transform_grows [OF 1] apply_transform_grows [OF 2] show ?thesis
    by (rule subset_trans)
qed

lemma for_each_grows:
  assumes "\<And>s x s'. body s x = Inr s' \<Longrightarrow> trans_set (snd s) \<subseteq> trans_set (snd s')"
    and "for_each body s xs = Inr s'"
  shows "trans_set (snd s) \<subseteq> trans_set (snd s')"
  by (rule for_each_invariant [where R = "\<lambda>s s'. trans_set (snd s) \<subseteq> trans_set (snd s')",
        OF assms(1) _ _ assms(2)]) auto

lemma create_argument_grows:
  assumes "create_argument fmt cmb derivatives component local_comp local_offset
             transformation multiindices st = Inr (code, st')"
  shows "trans_set st \<subseteq> trans_set st'"
proof (cases "transformation = AFFINE")
  case True
  with assms obtain code0 where
    "for_each (argument_affine fmt cmb derivatives component) ([], st) multiindices = Inr (code0, st')"
    by (auto simp: create_argument_def split: sum.splits)
  from for_each_grows [OF argument_affine_grows this] show ?thesis by simp
next
  case False
  let ?inner = "\<lambda>cs multi.
      for_each (argument_piola fmt cmb derivatives local_comp local_offset transformation multi)
        cs [0..<geo_dim (snd cs)]"
  from False assms obtain code0 where r: "for_each ?inner ([], st) multiindices = Inr (code0, st')"
    by (auto simp: create_argument_def split: sum.splits)
  have "trans_set (snd s) \<subseteq> trans_set (snd s')" if "?inner s x = Inr s'" for s x s'
    using for_each_grows [OF argument_piola_grows that] .
  from for_each_grows [of ?inner, OF this r] show ?thesis by simp
qed

lemma create_function_grows:
  assumes "create_function fmt cfn derivatives component local_comp local_offset
             transformation multiindices st = Inr (v, st')"
  shows "trans_set st \<subseteq> trans_set st'"
proof (cases "transformation = AFFINE")
  case True
  with assms obtain code0 where
    "for_each (function_affine fmt cfn derivatives component) ([], st) multiindices = Inr (code0, st')"
    by (auto simp: create_function_def split: sum.splits)
  from for_each_grows [OF function_affine_grows this] show ?thesis by simp
next
  case False
  let ?inner = "\<lambda>cs multi.
      for_each (function_piola fmt cfn derivatives local_comp local_offset transformation multi)
        cs [0..<geo_dim (snd cs)]"
  from False assms obtain code0 where r: "for_each ?inner ([], st) multiindices = Inr (code0, st')"
    by (auto simp: create_function_def split: sum.splits)
  have "trans_set (snd s) \<subseteq> trans_set (snd s')" if "?inner s x = Inr s'" for s x s'
    using for_each_grows [OF function_piola_grows that] .
  from for_each_grows [of ?inner, OF this r] show ?thesis by simp
qed

lemma run_visit_grows:
  assumes "run_visit fmt st step = Inr st'"
  shows "trans_set st \<subseteq> trans_set st'"
proof (cases step)
  case (VisitFacetNormal operands)
  with assms obtain code where "facet_normal fmt operands st = Inr (code, st')"
    by (auto simp: run_visit_def map_sum_def split: sum.splits)
  then show ?thesis by (rule facet_normal_grows)
next
  case (VisitArgument cmb derivatives component local_comp local_offset transformation multiindices)
  with assms obtain code where
    "create_argument fmt cmb derivatives component local_comp local_offset transformation
       multiindices st = Inr (code, st')"
    by (auto simp: run_visit_def map_sum_def split: sum.splits)
  then show ?thesis by (rule create_argument_grows)
next
  case (VisitFunction cfn derivatives component local_comp local_offset transformation multiindices)
  with assms obtain v where
    "create_function fmt cfn derivatives component local_comp local_offset transformation
       multiindices st = Inr (v, st')"
    by (auto simp: run_visit_def map_sum_def split: sum.splits)
  then show ?thesis by (rule create_function_grows)
next
  case (ApplyTransform f derivatives multi)
  with assms obtain t where "apply_transform fmt f derivatives multi st = Inr (t, st')"
    by (auto simp: run_visit_def map_sum_def split: sum.splits)
  then show ?thesis by (rule apply_transform_grows)
qed

lemma run_visits_grow:
  assumes "for_each (run_visit fmt) st steps = Inr st'"
  shows "trans_set st \<subseteq> trans_set st'"
  by (rule for_each_invariant [where R = "\<lambda>s s'. trans_set s \<subseteq> trans_set s'",
        OF run_visit_grows _ _ assms]) auto

text \<open>
  The power changes the state only through the visits of its operands: with a visitor
  that keeps the used transforms, so does the power.
\<close>

lemma power_node_grows:
  assumes v: "\<And>e s r s'. visit e s = Inr (r, s') \<Longrightarrow> trans_set s \<subseteq> trans_set s'"
    and p: "power_node fmt visit base expo st = Inr (code, st')"
  shows "trans_set st \<subseteq> trans_set st'"
proof -
  from p obtain base_code st1 where b: "visit base st = Inr (base_code, st1)"
    by (auto simp: power_node_def split: sum.splits)
  show ?thesis
  proof (cases expo)
    case (Coefficient c)
    with p b obtain exp_code where "visit expo st1 = Inr (exp_code, st')"
      by (auto simp: power_node_def Let_def split: sum.splits if_splits option.splits)
    from v [OF b] v [OF this] show ?thesis by (rule subset_trans)
  next
    case (IntValue n)
    with p b have "st' = st1"
      by (auto simp: power_node_def Let_def split: if_splits)
    with v [OF b] show ?thesis by simp
  next
    case (FloatValue x)
    with p b have "st' = st1"
      by (auto simp: power_node_def Let_def split: if_splits)
    with v [OF b] show ?thesis by simp
  next
    case (OtherExpr c)
    with p b show ?thesis
      by (auto simp: power_node_def Let_def split: if_splits)
  qed
qed

text \<open>
  Claim C8. The set of used transforms only grows: the facet normal, the Piola factor, the
  transform applier and the construction of basis functions and of coefficient functions
  return a state whose set contains the set they started from; so in every sequence of
  such visits that returns, the set after a prefix of the sequence contains the initial
  set and is contained in the final one.
\<close>

theorem trans_set_monotone:
  "(\<forall>operands code st'. facet_normal fmt operands st = Inr (code, st') \<longrightarrow>
      trans_set st \<subseteq> trans_set st') \<and>
   (\<forall>transformation c local_comp basis b st'.
      piola_transform fmt transformation c local_comp basis st = Inr (b, st') \<longrightarrow>
      trans_set st \<subseteq> trans_set st') \<and>
   (\<forall>f derivatives multi t st'.
      apply_transform fmt f derivatives multi st = Inr (t, st') \<longrightarrow>
      trans_set st \<subseteq> trans_set st') \<and>
   (\<forall>cmb derivatives component local_comp local_offset transformation multiindices code st'.
      create_argument fmt cmb derivatives component local_comp local_offset transformation
        multiindices st = Inr (code, st') \<longrightarrow>
      trans_set st \<subseteq> trans_set st') \<and>
   (\<forall>cfn derivatives component local_comp local_offset transformation multiindices v st'.
      create_function fmt cfn derivatives component local_comp local_offset transformation
        multiindices st = Inr (v, st') \<longrightarrow>
      trans_set st \<subseteq> trans_set st') \<and>
   (\<forall>steps steps' st2.
      for_each (run_visit fmt) st (steps @ steps') = Inr st2 \<longrightarrow>
      (\<exists>st1. for_each (run_visit fmt) st steps = Inr st1 \<and>
             trans_set st \<subseteq> trans_set st1 \<and> trans_set st1 \<subseteq> trans_set st2))"
proof (intro conjI allI impI)
  fix operands code st'
  assume "facet_normal fmt operands st = Inr (code, st')"
  then show "trans_set st \<subseteq> trans_set st'" by (rule facet_normal_grows)
next
  fix transformation c local_comp basis b st'
  assume "piola_transform fmt transformation c local_comp basis st = Inr (b, st')"
  then show "trans_set st \<subseteq> trans_set st'" by (rule piola_transform_grows)
next
  fix f derivatives multi t st'
  assume "apply_transform fmt f derivatives multi st = Inr (t, st')"
  then show "trans_set st \<subseteq> trans_set st'" by (rule apply_transform_grows)
next
  fix cmb derivatives component local_comp local_offset transformation multiindices code st'
  assume "create_argument fmt cmb derivatives component local_comp local_offset transformation
        multiindices st = Inr (code, st')"
  then show "trans_set st \<subseteq> trans_set st'" by (rule create_argument_grows)
next
  fix cfn derivatives component local_comp local_offset transformation multiindices v st'
  assume "create_function fmt cfn derivatives component local_comp local_offset transformation
        multiindices st = Inr (v, st')"
  then show "trans_set st \<subseteq> trans_set st'" by (rule create_function_grows)
next
  fix steps steps' st2
  assume r: "for_each (run_visit fmt) st (steps @ steps') = Inr st2"
  then obtain st1 where 1: "for_each (run_visit fmt) st steps = Inr st1"
    and 2: "for_each (run_visit fmt) st1 steps' = Inr st2"
    by (auto simp: for_each_append split: sum.splits)
  from run_visits_grow [OF 1] run_visits_grow [OF 2] 1
  show "\<exists>st1. for_each (run_visit fmt) st steps = Inr st1 \<and>
             trans_set st \<subseteq> trans_set st1 \<and> trans_set st1 \<subseteq> trans_set st2"
    by blast
qed

text \<open>
  Claim C8 on a facet normal followed by a transform.
\<close>

theorem trans_set_monotone_witness:
  "for_each (run_visit sample_format) sample_state
     ([VisitFacetNormal []] @ [ApplyTransform (Some ''psi'') [0] [1]])
     = Inr (sample_state\<lparr>trans_set := {''JINV_10'', ''n0''}\<rparr>) \<and>
   for_each (run_visit sample_format) sample_state [VisitFacetNormal []]
     = Inr (sample_state\<lparr>trans_set := {''n0''}\<rparr>) \<and>
   trans_set sample_state \<subseteq> {''n0''} \<and>
   {''n0''} \<subseteq> {''JINV_10'', ''n0''}"
proof -
  let ?steps = "[VisitFacetNormal []]" and ?steps' = "[ApplyTransform (Some ''psi'') [0] [1]]"
  have n: "format_normal_component sample_format NoRestriction 0 = ''n0''"
    by (simp add: sample_format_def restriction_suffix_def decimal.simps digit_def)
  have j: "format_transform sample_format ''JINV'' (Suc 0) 0 NoRestriction = ''JINV_10''"
    by (simp add: sample_format_def restriction_suffix_def decimal.simps digit_def)
  have 1: "for_each (run_visit sample_format) sample_state ?steps
     = Inr (sample_state\<lparr>trans_set := {''n0''}\<rparr>)"
    by (simp add: run_visit_def facet_normal_def sample_state_def n Let_def)
  have 2: "for_each (run_visit sample_format) sample_state (?steps @ ?steps')
     = Inr (sample_state\<lparr>trans_set := {''JINV_10'', ''n0''}\<rparr>)"
    by (simp add: run_visit_def facet_normal_def apply_transform_def sample_state_def n j Let_def
          insert_commute)
  note t = trans_set_monotone [of sample_format sample_state, THEN conjunct2, THEN conjunct2,
      THEN conjunct2, THEN conjunct2, THEN conjunct2, rule_format, OF 2]
  then obtain st1 where s: "for_each (run_visit sample_format) sample_state ?steps = Inr st1"
    "trans_set sample_state \<subseteq> trans_set st1"
    "trans_set st1 \<subseteq> trans_set (sample_state\<lparr>trans_set := {''JINV_10'', ''n0''}\<rparr>)"
    by (elim exE conjE)
  from s(1) 1 have "st1 = sample_state\<lparr>trans_set := {''n0''}\<rparr>" by simp
  with s have 3: "trans_set sample_state \<subseteq> {''n0''}" and 4: "{''n0''} \<subseteq> {''JINV_10'', ''n0''}"
    by simp_all
  from 2 1 3 4 show ?thesis by (intro conjI)
qed

lemma py_index_last:
  "0 < n \<Longrightarrow> n \<le> length xs \<Longrightarrow> py_index xs (int n - 1) = Inr (xs ! (n - 1))"
  by (auto simp: py_index_def nat_diff_distrib')

lemma encapsule_element_index:
  assumes "map_of classnames ''elements'' = Some es"
    and "map_of classnames ''dofmaps'' = Some ds"
    and "map_of classnames ''coordinate_mapppings'' = Some cs"
    and "0 < length elements" and "length elements \<le> length es"
    and "length elements \<le> length ds" and "length elements \<le> length cs"
  shows "encapsule_element classnames elements =
           Inr \<lparr>capsule_name = ''0'',
                element_classnames = [es ! (length elements - 1)],
                dofmap_classnames = [ds ! (length elements - 1)],
                coordinate_map_classnames = [cs ! (length elements - 1)]\<rparr>"
  using assms
  by (simp add: encapsule_element_def py_lookup_def and_then_def py_index_last Let_def)

lemma encapsule_element_misspelt_key:
  assumes "map_of classnames ''coordinate_mapppings'' = None"
  shows "\<exists>e. encapsule_element classnames elements = Inl e"
  using assms
  by (auto simp: encapsule_element_def py_lookup_def and_then_def Let_def
        split: option.splits sum.splits)

text \<open>
  Claim C9. With the class names that \<open>_encapsule_form\<close> reads (the coordinate maps under
  \<open>"coordinate_maps"\<close>), the encapsulation of a form returns, but the single-element case
  (no form datas) raises \<open>KeyError\<close>: \<open>_encapsule_element\<close> subscripts the class names
  with \<open>"coordinate_mapppings"\<close>, so no coordinate-map class name is selected.
\<close>

theorem encapsule_element_key_error:
  "encapsulate (\<lambda>es. True) []
     [(''forms'', [''F0'']), (''elements'', [''E0'']), (''dofmaps'', [''D0'']),
      (''coordinate_maps'', [''C0''])]
     [] [0::nat] [(0, 0)] = Inl KeyError \<and>
   encapsulate (\<lambda>es. True) []
     [(''forms'', [''F0'']), (''elements'', [''E0'']), (''dofmaps'', [''D0'']),
      (''coordinate_maps'', [''C0''])]
     [\<lparr>argument_elements = [0::nat], coefficient_elements = [],
       original_form = 1, reduced_coefficients = []\<rparr>]
     [0] [(0, 0)]
     = Inr (FormCapsules
              [\<lparr>form_name = ''0'', coefficient_names = [], form_classname = ''F0'',
                form_element_classnames = [''E0''], form_dofmap_classnames = [''D0''],
                form_coordinate_map_classnames = [''C0''], superclassname = ''Form''\<rparr>],
            True)"
  by (simp add: encapsulate_def encapsule_element_def encapsule_form_def py_lookup_def
        py_index_def and_then_def dict_get_def decimal.simps digit_def enumerate_eq_zip)

end
